theory Spec2Isabelle
  imports Complex_Main
begin

section \<open>Python values\<close>

text \<open>
  Exceptions of the fine-tuning module \<^verbatim>\<open>fine_tune/finetune_medclip.py\<close> are values:
  a function that can raise returns \<open>error + 'a\<close>, with \<open>Inl\<close> the exception.
\<close>

datatype error =
    TypeError | UnboundLocalError | AttributeError | IndexError | KeyError
  | StopIteration | FileNotFoundError | UnpicklingError | RuntimeError
  | AssertionError | ValueError

text \<open>
  Python floats, idealised: a real number, the two infinities, or not-a-number. Rounding
  is not modelled; the comparisons and the special values are, since the early-stopping
  state starts at \<^verbatim>\<open>float('inf')\<close> and \<^verbatim>\<open>np.mean([])\<close> is nan.
\<close>

datatype pyfloat = Fin real | PInf | NInf | NaN

fun float_lt :: "pyfloat \<Rightarrow> pyfloat \<Rightarrow> bool" where
  "float_lt NaN b = False"
| "float_lt a NaN = False"
| "float_lt (Fin a) (Fin b) = (a < b)"
| "float_lt (Fin a) PInf = True"
| "float_lt NInf (Fin b) = True"
| "float_lt NInf PInf = True"
| "float_lt a b = False"

fun float_add :: "pyfloat \<Rightarrow> pyfloat \<Rightarrow> pyfloat" where
  "float_add NaN b = NaN"
| "float_add a NaN = NaN"
| "float_add (Fin a) (Fin b) = Fin (a + b)"
| "float_add PInf NInf = NaN"
| "float_add NInf PInf = NaN"
| "float_add PInf b = PInf"
| "float_add a PInf = PInf"
| "float_add NInf b = NInf"
| "float_add a NInf = NInf"

text \<open>Division of a float by a positive count (\<^verbatim>\<open>x / 2\<close>, and the mean's division).\<close>

fun float_div_pos :: "pyfloat \<Rightarrow> nat \<Rightarrow> pyfloat" where
  "float_div_pos (Fin a) n = Fin (a / real n)"
| "float_div_pos a n = a"

text \<open>\<^verbatim>\<open>np.mean\<close> of a list of floats: nan on the empty list.\<close>

definition np_mean :: "pyfloat list \<Rightarrow> pyfloat" where
  "np_mean xs =
     (if xs = [] then NaN else float_div_pos (foldl float_add (Fin 0) xs) (length xs))"

text \<open>\<^verbatim>\<open>np.round\<close>: to the nearest integer, a tie to the even one.\<close>

definition round_half_even :: "real \<Rightarrow> real" where
  "round_half_even x =
     (let f = \<lfloor>x\<rfloor>; d = x - of_int f
      in if d < 1/2 then of_int f
         else if 1/2 < d then of_int (f + 1)
         else if even f then of_int f else of_int (f + 1))"

fun np_round :: "pyfloat \<Rightarrow> pyfloat" where
  "np_round (Fin x) = Fin (round_half_even x)"
| "np_round a = a"

text \<open>Subscripting a Python list with an integer: a negative index counts from the end.\<close>

definition py_index :: "'a list \<Rightarrow> int \<Rightarrow> error + 'a" where
  "py_index xs i =
     (if 0 \<le> i \<and> i < int (length xs) then Inr (xs ! nat i)
      else if i < 0 \<and> - int (length xs) \<le> i then Inr (xs ! nat (int (length xs) + i))
      else Inl IndexError)"

text \<open>\<^verbatim>\<open>range()\<close> with no argument raises; \<^verbatim>\<open>range(n)\<close> counts from 0.\<close>

definition py_range :: "nat list \<Rightarrow> error + nat list" where
  "py_range args = (case args of [n] \<Rightarrow> Inr [0..<n] | _ \<Rightarrow> Inl TypeError)"

section \<open>Tensors, parameters and the model\<close>

datatype dtype = Float16 | Float32

record tensor =
  elems :: "real list"
  dtype :: dtype

text \<open>\<^verbatim>\<open>t.float()\<close> and \<^verbatim>\<open>t.half()\<close> change the element type.\<close>

definition to_float :: "tensor \<Rightarrow> tensor" where
  "to_float t = t\<lparr>dtype := Float32\<rparr>"

definition to_half :: "tensor \<Rightarrow> tensor" where
  "to_half t = t\<lparr>dtype := Float16\<rparr>"

text \<open>
  A parameter of the model: its tensor, its gradient when it has one, and whether it is
  trained (\<^verbatim>\<open>requires_grad\<close>, which the module itself never reads).
\<close>

record parameter =
  data :: tensor
  grad :: "tensor option"
  requires_grad :: bool

type_synonym model = "parameter list"

type_synonym image = "real list"
type_synonym logits = "pyfloat list list"

record tokens =
  input_ids :: "nat list list"
  attention_mask :: "nat list list"

type_synonym prompts = "(string \<times> tokens) list"

record model_output =
  logits :: logits
  logits_per_text :: logits

text \<open>The state of the Adam optimizer (its moment estimates), opaque here.\<close>

type_synonym opt_state = "real list"

text \<open>
  The numerical framework and the libraries are outside the repository: torch, medclip,
  clip and sklearn enter as the functions of this record. \<open>cross_entropy\<close> stands for
  \<^verbatim>\<open>nn.CrossEntropyLoss()\<close>, of which \<^verbatim>\<open>self.loss_img\<close> and \<^verbatim>\<open>self.loss_txt\<close>
  are two instances; \<open>tokenizer\<close> is what \<^verbatim>\<open>process_class_prompts\<close> does to the
  captions of one task; \<open>prompt_classifier\<close> is the forward pass of
  \<^verbatim>\<open>PromptClassifier(model, ensemble=True)\<close>.
\<close>

record ext =
  tokenizer :: "string list \<Rightarrow> tokens"
  forward :: "model \<Rightarrow> nat list list \<Rightarrow> image list \<Rightarrow> nat list list \<Rightarrow> error + model_output"
  cross_entropy :: "logits \<Rightarrow> nat list \<Rightarrow> error + pyfloat"
  zero_grad :: "model \<Rightarrow> model"
  backward :: "model \<Rightarrow> image list \<Rightarrow> tokens \<Rightarrow> model"
  adam_step :: "opt_state \<Rightarrow> model \<Rightarrow> opt_state \<times> model"
  convert_weights :: "model \<Rightarrow> model"
  prompt_classifier :: "model \<Rightarrow> image list \<Rightarrow> prompts \<Rightarrow> error + logits"
  accuracy_score :: "pyfloat list \<Rightarrow> pyfloat list \<Rightarrow> error + pyfloat"
  precision_score :: "pyfloat list \<Rightarrow> pyfloat list \<Rightarrow> error + pyfloat"
  recall_score :: "pyfloat list \<Rightarrow> pyfloat list \<Rightarrow> error + pyfloat"
  roc_auc_score :: "pyfloat list \<Rightarrow> pyfloat list \<Rightarrow> error + pyfloat"
  classification_report :: "pyfloat list \<Rightarrow> pyfloat list \<Rightarrow> error + string"
  confusion_matrix :: "pyfloat list \<Rightarrow> pyfloat list \<Rightarrow> error + nat list list"

section \<open>The classifier object\<close>

text \<open>
  The attributes of \<^verbatim>\<open>TrainMedClipClassifier\<close>. \<open>option\<close> and \<open>number_of_captions\<close>
  are set by \<^verbatim>\<open>run\<close> only, so they can be unset.
\<close>

record trainer =
  medical_type :: string
  device :: string
  medclip_model :: model
  optimizer :: opt_state
  epochs :: int
  metric_history :: "string \<rightharpoonup> pyfloat list"
  early_stopping_patience :: int
  early_stopping_counter :: int
  best_val_loss :: pyfloat
  early_stop :: bool
  option :: "string option"
  number_of_captions :: "int option"

definition metric_keys :: "string list" where
  "metric_keys =
     [''train_loss'', ''val_loss'', ''train_accuracy'', ''val_accuracy'',
      ''train_precision'', ''val_precision'', ''train_recall'', ''val_recall'',
      ''train_auc'', ''val_auc'']"

text \<open>
  \<^verbatim>\<open>load_medclip_model\<close>: the pretrained weights, in full precision on the cpu and
  through \<^verbatim>\<open>clip.model.convert_weights\<close> elsewhere.
\<close>

definition load_medclip_model :: "ext \<Rightarrow> string \<Rightarrow> model \<Rightarrow> model" where
  "load_medclip_model x dev pretrained =
     (if dev = ''cpu'' then map (\<lambda>p. p\<lparr>data := to_float (data p)\<rparr>) pretrained
      else convert_weights x pretrained)"

text \<open>
  \<^verbatim>\<open>__init__\<close>; the availability of cuda and the pretrained weights are inputs. The
  call of \<^verbatim>\<open>configure\<close> changes nothing that is modelled.
\<close>

definition init :: "ext \<Rightarrow> bool \<Rightarrow> model \<Rightarrow> opt_state \<Rightarrow> string \<Rightarrow> int \<Rightarrow> trainer" where
  "init x cuda_available pretrained opt0 mt n =
     (let dev = (if cuda_available then ''cuda'' else ''cpu'')
      in \<lparr>medical_type = mt, device = dev,
          medclip_model = load_medclip_model x dev pretrained,
          optimizer = opt0, epochs = n,
          metric_history = map_of (map (\<lambda>k. (k, [])) metric_keys),
          early_stopping_patience = 5, early_stopping_counter = 0,
          best_val_loss = PInf, early_stop = False,
          option = None, number_of_captions = None\<rparr>)"

section \<open>Prompt construction\<close>

definition caption :: "string \<Rightarrow> string" where
  "caption c = ''a photo of '' @ c @ '' lungs.''"

text \<open>
  The list comprehension of lines 157 and 186: one caption per label, the label an index
  into the categories; the first bad index raises.
\<close>

fun label_captions :: "string list \<Rightarrow> int list \<Rightarrow> error + string list" where
  "label_captions categories [] = Inr []"
| "label_captions categories (l # ls) =
     (case py_index categories l of
        Inl e \<Rightarrow> Inl e
      | Inr c \<Rightarrow>
          (case label_captions categories ls of
             Inl e \<Rightarrow> Inl e
           | Inr cs \<Rightarrow> Inr (caption c # cs)))"

text \<open>
  Lines 156 to 157 (and 185 to 186): \<^verbatim>\<open>texts\<close> is assigned under the
  \<^verbatim>\<open>"regular_captions"\<close> option only; the next line reads it, so under any other
  option the local variable is unbound.
\<close>

definition build_texts ::
    "trainer \<Rightarrow> string list \<Rightarrow> int list \<Rightarrow> error + (string \<times> string list) list" where
  "build_texts self categories labels =
     (case option self of
        None \<Rightarrow> Inl AttributeError
      | Some opt \<Rightarrow>
          if opt = ''regular_captions'' then
            (case label_captions categories labels of
               Inl e \<Rightarrow> Inl e
             | Inr cs \<Rightarrow> Inr [(''COVID'', cs)])
          else Inl UnboundLocalError)"

definition process_class_prompts :: "ext \<Rightarrow> (string \<times> string list) list \<Rightarrow> prompts" where
  "process_class_prompts x texts = map (\<lambda>(k, cs). (k, tokenizer x cs)) texts"

text \<open>\<^verbatim>\<open>d[k]\<close> on a dictionary kept as an association list.\<close>

definition py_lookup :: "('k \<times> 'v) list \<Rightarrow> 'k \<Rightarrow> error + 'v" where
  "py_lookup d k = (case map_of d k of None \<Rightarrow> Inl KeyError | Some v \<Rightarrow> Inr v)"

section \<open>The loss and the optimizer step\<close>

text \<open>
  Lines 167 to 168 (and 195 to 196): the ground truth is \<^verbatim>\<open>arange(len(inputs))\<close> and the
  loss is the two cross-entropies added and halved.
\<close>

definition total_loss :: "ext \<Rightarrow> image list \<Rightarrow> logits \<Rightarrow> logits \<Rightarrow> error + pyfloat" where
  "total_loss x inputs logits_per_image logits_per_text' =
     (let ground_truth = [0..<length inputs]
      in case cross_entropy x logits_per_image ground_truth of
           Inl e \<Rightarrow> Inl e
         | Inr li \<Rightarrow>
             (case cross_entropy x logits_per_text' ground_truth of
                Inl e \<Rightarrow> Inl e
              | Inr lt \<Rightarrow> Inr (float_div_pos (float_add li lt) 2)))"

text \<open>\<^verbatim>\<open>convert_models_to_fp32\<close>, lines 57 to 61.\<close>

definition convert_models_to_fp32 :: "model \<Rightarrow> model" where
  "convert_models_to_fp32 m =
     map (\<lambda>p. case grad p of
                 None \<Rightarrow> p
               | Some g \<Rightarrow> p\<lparr>data := to_float (data p), grad := Some (to_float g)\<rparr>) m"

text \<open>Lines 170 to 175: the optimizer step, inside the precision cycle off the cpu.\<close>

definition optimizer_update :: "ext \<Rightarrow> trainer \<Rightarrow> trainer" where
  "optimizer_update x self =
     (if device self = ''cpu'' then
        (let (o', m') = adam_step x (optimizer self) (medclip_model self)
         in self\<lparr>medclip_model := m', optimizer := o'\<rparr>)
      else
        (let m1 = convert_models_to_fp32 (medclip_model self);
             (o', m2) = adam_step x (optimizer self) m1;
             m3 = convert_weights x m2
         in self\<lparr>medclip_model := m3, optimizer := o'\<rparr>))"

section \<open>Data sources\<close>

datatype call = Next | Reset

type_synonym batch = "image list \<times> int list"

text \<open>
  Modelled from the spec: the data sources are built by \<^verbatim>\<open>data_loader.load_data\<close>,
  which is not among the source files. A source exposes \<^verbatim>\<open>next()\<close>, which returns a
  pixel batch and a label batch or ends on exhaustion, and \<^verbatim>\<open>reset()\<close>, which rewinds
  to the start. \<open>feed\<close> is the batch at each position (\<open>None\<close> past the end; a source
  that cycles has none), \<open>cursor\<close> the position, and \<open>calls\<close> the calls received so
  far, oldest first.
\<close>

record loader =
  feed :: "nat \<Rightarrow> batch option"
  cursor :: nat
  calls :: "call list"

definition py_next :: "loader \<Rightarrow> error + batch \<times> loader" where
  "py_next g =
     (case feed g (cursor g) of
        None \<Rightarrow> Inl StopIteration
      | Some b \<Rightarrow> Inr (b, g\<lparr>cursor := Suc (cursor g), calls := calls g @ [Next]\<rparr>))"

definition reset :: "loader \<Rightarrow> loader" where
  "reset g = g\<lparr>cursor := 0, calls := calls g @ [Reset]\<rparr>"

section \<open>The training and validation passes\<close>

text \<open>
  The first part of one iteration of the training loop, lines 152 to 169: the batch, its
  prompts, the forward pass, the loss and the gradients.
\<close>

definition forward_backward ::
    "ext \<Rightarrow> string list \<Rightarrow> trainer \<Rightarrow> loader \<Rightarrow> error + pyfloat \<times> trainer \<times> loader" where
  "forward_backward x categories self train_loader =
     (case py_next train_loader of
        Inl e \<Rightarrow> Inl e
      | Inr ((inputs, labels), g) \<Rightarrow>
     (case build_texts self categories labels of
        Inl e \<Rightarrow> Inl e
      | Inr texts \<Rightarrow>
     (let cls_prompts = process_class_prompts x texts;
          m0 = zero_grad x (medclip_model self)
      in case py_lookup cls_prompts ''COVID'' of
        Inl e \<Rightarrow> Inl e
      | Inr toks \<Rightarrow>
     (case forward x m0 (input_ids toks) inputs (attention_mask toks) of
        Inl e \<Rightarrow> Inl e
      | Inr out \<Rightarrow>
     (case total_loss x inputs (logits out) (logits_per_text out) of
        Inl e \<Rightarrow> Inl e
      | Inr loss \<Rightarrow>
          Inr (loss, self\<lparr>medclip_model := backward x m0 inputs toks\<rparr>, g))))))"

text \<open>One iteration of the training loop, lines 152 to 176; it returns the loss.\<close>

definition train_batch ::
    "ext \<Rightarrow> string list \<Rightarrow> trainer \<Rightarrow> loader \<Rightarrow> error + pyfloat \<times> trainer \<times> loader" where
  "train_batch x categories self train_loader =
     (case forward_backward x categories self train_loader of
        Inl e \<Rightarrow> Inl e
      | Inr (loss, self1, g) \<Rightarrow> Inr (loss, optimizer_update x self1, g))"

fun train_steps ::
    "ext \<Rightarrow> string list \<Rightarrow> nat list \<Rightarrow> trainer \<Rightarrow> loader \<Rightarrow> pyfloat list
      \<Rightarrow> error + pyfloat list \<times> trainer \<times> loader" where
  "train_steps x categories [] self g train_losses = Inr (train_losses, self, g)"
| "train_steps x categories (step # rest) self g train_losses =
     (case train_batch x categories self g of
        Inl e \<Rightarrow> Inl e
      | Inr (loss, self', g') \<Rightarrow>
          train_steps x categories rest self' g' (train_losses @ [loss]))"

text \<open>
  Lines 149 to 177. The loop of line 151 iterates over \<^verbatim>\<open>range()\<close>, written with no
  argument. The switches of lines 149 and 178 between training and inference mode belong
  to the forward pass of the library and are not modelled.
\<close>

definition train_pass ::
    "ext \<Rightarrow> string list \<Rightarrow> trainer \<Rightarrow> loader \<Rightarrow> error + pyfloat \<times> trainer \<times> loader" where
  "train_pass x categories self train_loader =
     (case py_range [] of
        Inl e \<Rightarrow> Inl e
      | Inr steps \<Rightarrow>
          (case train_steps x categories steps self train_loader [] of
             Inl e \<Rightarrow> Inl e
           | Inr (train_losses, self', g') \<Rightarrow> Inr (np_mean train_losses, self', g')))"

text \<open>One iteration of the validation loop, lines 181 to 197: the same forward path, no
  optimizer step.\<close>

definition validation_batch ::
    "ext \<Rightarrow> string list \<Rightarrow> trainer \<Rightarrow> loader \<Rightarrow> error + pyfloat \<times> loader" where
  "validation_batch x categories self validation_loader =
     (case py_next validation_loader of
        Inl e \<Rightarrow> Inl e
      | Inr ((inputs, labels), g) \<Rightarrow>
     (case build_texts self categories labels of
        Inl e \<Rightarrow> Inl e
      | Inr texts \<Rightarrow>
     (let cls_prompts = process_class_prompts x texts
      in case py_lookup cls_prompts ''COVID'' of
        Inl e \<Rightarrow> Inl e
      | Inr toks \<Rightarrow>
     (case forward x (medclip_model self) (input_ids toks) inputs (attention_mask toks) of
        Inl e \<Rightarrow> Inl e
      | Inr out \<Rightarrow>
     (case total_loss x inputs (logits out) (logits_per_text out) of
        Inl e \<Rightarrow> Inl e
      | Inr loss \<Rightarrow> Inr (loss, g))))))"

fun validation_steps ::
    "ext \<Rightarrow> string list \<Rightarrow> nat list \<Rightarrow> trainer \<Rightarrow> loader \<Rightarrow> pyfloat list
      \<Rightarrow> error + pyfloat list \<times> loader" where
  "validation_steps x categories [] self g validation_losses = Inr (validation_losses, g)"
| "validation_steps x categories (step # rest) self g validation_losses =
     (case validation_batch x categories self g of
        Inl e \<Rightarrow> Inl e
      | Inr (loss, g') \<Rightarrow>
          validation_steps x categories rest self g' (validation_losses @ [loss]))"

text \<open>Lines 178 to 198; \<open>steps\<close> is the dictionary of step counts.\<close>

definition validation_pass ::
    "ext \<Rightarrow> (string \<rightharpoonup> nat) \<Rightarrow> string list \<Rightarrow> trainer \<Rightarrow> loader \<Rightarrow> error + pyfloat \<times> loader" where
  "validation_pass x steps categories self validation_loader =
     (case steps ''Validation'' of
        None \<Rightarrow> Inl KeyError
      | Some n \<Rightarrow>
     (case py_range [n] of
        Inl e \<Rightarrow> Inl e
      | Inr rng \<Rightarrow>
          (case validation_steps x categories rng self validation_loader [] of
             Inl e \<Rightarrow> Inl e
           | Inr (validation_losses, g') \<Rightarrow> Inr (np_mean validation_losses, g'))))"

section \<open>Classification and evaluation\<close>

text \<open>\<^verbatim>\<open>zero_shot_classification\<close>, lines 80 to 98.\<close>

definition zero_shot_classification ::
    "ext \<Rightarrow> trainer \<Rightarrow> image list \<Rightarrow> string list \<Rightarrow> error + pyfloat list \<times> pyfloat list" where
  "zero_shot_classification x self image_batch categories =
     (let texts = [(''COVID'', [''a photo of covid lungs.'']) ];
          cls_prompts = process_class_prompts x texts
      in case prompt_classifier x (medclip_model self) image_batch cls_prompts of
           Inl e \<Rightarrow> Inl e
         | Inr out \<Rightarrow>
             (let top_probs = concat out;
                  top_labels = map np_round top_probs
              in Inr (top_probs, top_labels)))"

text \<open>The three accumulators of \<^verbatim>\<open>evaluate\<close>: true labels, predicted labels, scores.\<close>

type_synonym accum = "pyfloat list \<times> pyfloat list \<times> pyfloat list"

text \<open>The inner loop of lines 112 to 119, \<open>step\<close> iterations on one data source.\<close>

fun eval_steps ::
    "ext \<Rightarrow> trainer \<Rightarrow> string list \<Rightarrow> nat \<Rightarrow> loader \<Rightarrow> accum \<Rightarrow> error + accum \<times> loader" where
  "eval_steps x self task 0 g acc = Inr (acc, g)"
| "eval_steps x self task (Suc n) g (y_true, y_pred, y_score) =
     (case py_next g of
        Inl e \<Rightarrow> Inl e
      | Inr ((inputs, labels), g') \<Rightarrow>
          (case zero_shot_classification x self inputs task of
             Inl e \<Rightarrow> Inl e
           | Inr (top_probs, top_labels) \<Rightarrow>
               eval_steps x self task n g'
                 (y_true @ map (\<lambda>l. Fin (of_int l)) labels,
                  y_pred @ top_labels,
                  y_score @ top_probs)))"

text \<open>
  The outer loop of lines 111 to 120 over \<^verbatim>\<open>enumerate(steps.items())\<close>, from index
  \<open>idx\<close> on: the sweep over \<^verbatim>\<open>generators[idx]\<close>, then its \<^verbatim>\<open>reset()\<close>.
\<close>

fun eval_sweeps ::
    "ext \<Rightarrow> trainer \<Rightarrow> string list \<Rightarrow> nat \<Rightarrow> (string \<times> nat) list \<Rightarrow> loader list \<Rightarrow> accum
      \<Rightarrow> error + accum \<times> loader list" where
  "eval_sweeps x self task idx [] generators acc = Inr (acc, generators)"
| "eval_sweeps x self task idx ((data_type, step) # rest) generators acc =
     (if idx < length generators then
        (case eval_steps x self task step (generators ! idx) acc of
           Inl e \<Rightarrow> Inl e
         | Inr (acc', g') \<Rightarrow>
             eval_sweeps x self task (Suc idx) rest (generators[idx := reset g']) acc')
      else Inl IndexError)"

record metrics =
  m_acc :: pyfloat
  m_prec :: pyfloat
  m_rec :: pyfloat
  m_auc :: pyfloat
  m_cr :: string
  m_cm :: "nat list list"

text \<open>\<^verbatim>\<open>evaluate\<close>, lines 100 to 123; the data sources come back with their new state.\<close>

definition evaluate ::
    "ext \<Rightarrow> trainer \<Rightarrow> loader list \<Rightarrow> (string \<times> nat) list \<Rightarrow> string list
      \<Rightarrow> error + metrics \<times> loader list" where
  "evaluate x self generators steps task =
     (case eval_sweeps x self task 0 steps generators ([], [], []) of
        Inl e \<Rightarrow> Inl e
      | Inr ((y_true, y_pred, y_score), generators') \<Rightarrow>
     (case accuracy_score x y_true y_pred of Inl e \<Rightarrow> Inl e | Inr acc \<Rightarrow>
     (case precision_score x y_true y_pred of Inl e \<Rightarrow> Inl e | Inr prec \<Rightarrow>
     (case recall_score x y_true y_pred of Inl e \<Rightarrow> Inl e | Inr rec \<Rightarrow>
     (case roc_auc_score x y_true y_score of Inl e \<Rightarrow> Inl e | Inr auc \<Rightarrow>
     (case classification_report x y_true y_pred of Inl e \<Rightarrow> Inl e | Inr cr \<Rightarrow>
     (case confusion_matrix x y_true y_pred of Inl e \<Rightarrow> Inl e | Inr cm \<Rightarrow>
        Inr (\<lparr>m_acc = acc, m_prec = prec, m_rec = rec, m_auc = auc, m_cr = cr, m_cm = cm\<rparr>,
             generators'))))))))"

section \<open>The epoch loop\<close>

text \<open>Files on durable storage: checkpoints, plots and the result file.\<close>

datatype stored =
    StateDict "tensor list"
  | Plot "pyfloat list" "pyfloat list"
  | Report metrics

type_synonym files = "string \<rightharpoonup> stored"

text \<open>
  \<^verbatim>\<open>state_dict()\<close> is the parameters' tensors. \<^verbatim>\<open>load_state_dict\<close> copies the
  elements of each into the parameter, which keeps its own element type; it raises when
  the tensors are not as many as the parameters or one has another shape (here, another
  number of elements).
\<close>

definition state_dict :: "model \<Rightarrow> tensor list" where
  "state_dict m = map data m"

definition load_state_dict :: "model \<Rightarrow> tensor list \<Rightarrow> error + model" where
  "load_state_dict m sd =
     (if length sd = length m
         \<and> list_all (\<lambda>(p, t). length (elems t) = length (elems (data p))) (zip m sd)
      then Inr (map (\<lambda>(p, t). p\<lparr>data := (data p)\<lparr>elems := elems t\<rparr>\<rparr>) (zip m sd))
      else Inl RuntimeError)"

definition torch_load :: "files \<Rightarrow> string \<Rightarrow> error + tensor list" where
  "torch_load fs path =
     (case fs path of
        None \<Rightarrow> Inl FileNotFoundError
      | Some (StateDict sd) \<Rightarrow> Inr sd
      | Some other \<Rightarrow> Inl UnpicklingError)"

definition model_save_path :: "string \<Rightarrow> string" where
  "model_save_path mt = ''results/finetune/'' @ mt @ ''/medclip/best_model.pth''"

text \<open>
  A list of one data source is handed to \<^verbatim>\<open>evaluate\<close>, which works on the source
  itself: its state afterwards is the first element of the list that comes back (the
  list keeps its length; \<open>g\<close> stands in for an empty one).
\<close>

definition source_after :: "loader \<Rightarrow> loader list \<Rightarrow> loader" where
  "source_after g gens = (case gens of [] \<Rightarrow> g | g' # rest \<Rightarrow> g')"

text \<open>What one epoch measures, lines 177, 198, 199 and 200.\<close>

record measures =
  avg_train_loss :: pyfloat
  avg_validation_loss :: pyfloat
  train_acc :: pyfloat
  train_prec :: pyfloat
  train_rec :: pyfloat
  train_auc :: pyfloat
  val_acc :: pyfloat
  val_prec :: pyfloat
  val_rec :: pyfloat
  val_auc :: pyfloat

text \<open>What the loop works on: the object, the storage and the two data sources.\<close>

record world =
  self :: trainer
  files :: files
  train_loader :: loader
  validation_loader :: loader

text \<open>\<^verbatim>\<open>self.metric_history[k].append(v)\<close>.\<close>

definition history_append ::
    "(string \<rightharpoonup> pyfloat list) \<Rightarrow> string \<Rightarrow> pyfloat \<Rightarrow> error + (string \<rightharpoonup> pyfloat list)" where
  "history_append h k v =
     (case h k of None \<Rightarrow> Inl KeyError | Some vs \<Rightarrow> Inr (h(k \<mapsto> vs @ [v])))"

fun history_appends ::
    "(string \<rightharpoonup> pyfloat list) \<Rightarrow> (string \<times> pyfloat) list
      \<Rightarrow> error + (string \<rightharpoonup> pyfloat list)" where
  "history_appends h [] = Inr h"
| "history_appends h ((k, v) # kvs) =
     (case history_append h k v of Inl e \<Rightarrow> Inl e | Inr h' \<Rightarrow> history_appends h' kvs)"

text \<open>Lines 201 to 210, the ten appends in their order.\<close>

definition record_metrics :: "measures \<Rightarrow> trainer \<Rightarrow> error + trainer" where
  "record_metrics ms s =
     (case history_appends (metric_history s)
             [(''train_loss'', avg_train_loss ms), (''val_loss'', avg_validation_loss ms),
              (''train_accuracy'', train_acc ms), (''val_accuracy'', val_acc ms),
              (''train_precision'', train_prec ms), (''val_precision'', val_prec ms),
              (''train_recall'', train_rec ms), (''val_recall'', val_rec ms),
              (''train_auc'', train_auc ms), (''val_auc'', val_auc ms)] of
        Inl e \<Rightarrow> Inl e
      | Inr h \<Rightarrow> Inr (s\<lparr>metric_history := h\<rparr>))"

text \<open>
  Lines 212 to 221: one plot file per metric, written over the previous one. Each history
  is plotted against \<^verbatim>\<open>range(1, epoch + 2)\<close>, and matplotlib raises when the two have
  different lengths.
\<close>

fun save_plots :: "trainer \<Rightarrow> nat \<Rightarrow> string list \<Rightarrow> files \<Rightarrow> error + files" where
  "save_plots s epoch [] fs = Inr fs"
| "save_plots s epoch (metric_name # rest) fs =
     (case metric_history s (''train_'' @ metric_name) of
        None \<Rightarrow> Inl KeyError
      | Some tr \<Rightarrow>
          if length tr \<noteq> epoch + 1 then Inl ValueError
          else
          (case metric_history s (''val_'' @ metric_name) of
             None \<Rightarrow> Inl KeyError
           | Some va \<Rightarrow>
               if length va \<noteq> epoch + 1 then Inl ValueError
               else save_plots s epoch rest
                      (fs(''metrics_'' @ metric_name @ ''_epoch.png'' \<mapsto> Plot tr va))))"

definition plot_names :: "string list" where
  "plot_names = [''loss'', ''accuracy'', ''precision'', ''recall'', ''auc'']"

text \<open>
  Lines 226 to 235: on a strictly lower validation loss the state dictionary is saved to
  \<^verbatim>\<open>'best_model.pth'\<close> and the counter reset; otherwise the counter is incremented and,
  when it equals the patience, the flag is set and the loop left. The boolean is the
  \<^verbatim>\<open>break\<close>.
\<close>

definition checkpoint_step :: "pyfloat \<Rightarrow> world \<Rightarrow> world \<times> bool" where
  "checkpoint_step avg_validation_loss' w =
     (let s = self w in
      if float_lt avg_validation_loss' (best_val_loss s) then
        (w\<lparr>self := s\<lparr>best_val_loss := avg_validation_loss', early_stopping_counter := 0\<rparr>,
           files := (files w)(''best_model.pth'' \<mapsto> StateDict (state_dict (medclip_model s)))\<rparr>,
         False)
      else
        (let c = early_stopping_counter s + 1 in
         if c = early_stopping_patience s then
           (w\<lparr>self := s\<lparr>early_stopping_counter := c, early_stop := True\<rparr>\<rparr>, True)
         else (w\<lparr>self := s\<lparr>early_stopping_counter := c\<rparr>\<rparr>, False)))"

text \<open>
  The body of the epoch loop, lines 149 to 235. \<open>passes\<close> is the part of it that runs the
  model, lines 149 to 200: the training pass, the validation pass and the two
  evaluations, which yield the epoch's measures.
\<close>

type_synonym passes = "nat \<Rightarrow> world \<Rightarrow> error + measures \<times> world"

definition epoch_body :: "passes \<Rightarrow> nat \<Rightarrow> world \<Rightarrow> error + world \<times> bool" where
  "epoch_body passes epoch w =
     (case passes epoch w of
        Inl e \<Rightarrow> Inl e
      | Inr (ms, w1) \<Rightarrow>
     (case record_metrics ms (self w1) of
        Inl e \<Rightarrow> Inl e
      | Inr s2 \<Rightarrow>
     (case save_plots s2 epoch plot_names (files w1) of
        Inl e \<Rightarrow> Inl e
      | Inr fs2 \<Rightarrow> Inr (checkpoint_step (avg_validation_loss ms) (w1\<lparr>self := s2, files := fs2\<rparr>)))))"

text \<open>The \<^verbatim>\<open>for\<close> loop over the epochs; the boolean tells whether it was left by
  \<^verbatim>\<open>break\<close>.\<close>

fun epoch_loop :: "passes \<Rightarrow> nat list \<Rightarrow> world \<Rightarrow> error + world \<times> bool" where
  "epoch_loop passes [] w = Inr (w, False)"
| "epoch_loop passes (epoch # rest) w =
     (case epoch_body passes epoch w of
        Inl e \<Rightarrow> Inl e
      | Inr (w', brk) \<Rightarrow> if brk then Inr (w', True) else epoch_loop passes rest w')"

text \<open>Line 236: the state dictionary at \<open>model_save_path\<close> is loaded into the model.\<close>

definition load_best :: "world \<Rightarrow> error + world" where
  "load_best w =
     (case torch_load (files w) (model_save_path (medical_type (self w))) of
        Inl e \<Rightarrow> Inl e
      | Inr sd \<Rightarrow>
          (case load_state_dict (medclip_model (self w)) sd of
             Inl e \<Rightarrow> Inl e
           | Inr m \<Rightarrow> Inr (w\<lparr>self := (self w)\<lparr>medclip_model := m\<rparr>\<rparr>)))"

text \<open>
  \<^verbatim>\<open>train_validate\<close>, lines 145 to 236, over the passes of an epoch. Line 147 creates
  the directory of \<open>model_save_path\<close>; directories are not part of the storage here, and
  what is printed is left out.
\<close>

definition train_validate_with :: "passes \<Rightarrow> world \<Rightarrow> error + world" where
  "train_validate_with passes w =
     (case epoch_loop passes [0..<nat (epochs (self w))] w of
        Inl e \<Rightarrow> Inl e
      | Inr (w', brk) \<Rightarrow> load_best w')"

text \<open>
  Lines 149 to 200 as the source has them: the training pass, the validation pass, the
  evaluation on the training source and the evaluation on the validation source.
\<close>

definition epoch_passes :: "ext \<Rightarrow> (string \<rightharpoonup> nat) \<Rightarrow> string list \<Rightarrow> passes" where
  "epoch_passes x steps categories epoch w =
     (case train_pass x categories (self w) (train_loader w) of
        Inl e \<Rightarrow> Inl e
      | Inr (avg_train, s1, tl1) \<Rightarrow>
     (case validation_pass x steps categories s1 (validation_loader w) of
        Inl e \<Rightarrow> Inl e
      | Inr (avg_val, vl1) \<Rightarrow>
     (case steps ''Train'' of
        None \<Rightarrow> Inl KeyError
      | Some n_train \<Rightarrow>
     (case evaluate x s1 [tl1] [(''Train'', n_train)] categories of
        Inl e \<Rightarrow> Inl e
      | Inr (tm, tgens) \<Rightarrow>
     (case steps ''Validation'' of
        None \<Rightarrow> Inl KeyError
      | Some n_val \<Rightarrow>
     (case evaluate x s1 [vl1] [(''Validation'', n_val)] categories of
        Inl e \<Rightarrow> Inl e
      | Inr (vm, vgens) \<Rightarrow>
          Inr (\<lparr>avg_train_loss = avg_train, avg_validation_loss = avg_val,
                train_acc = m_acc tm, train_prec = m_prec tm, train_rec = m_rec tm,
                train_auc = m_auc tm, val_acc = m_acc vm, val_prec = m_prec vm,
                val_rec = m_rec vm, val_auc = m_auc vm\<rparr>,
               w\<lparr>self := s1, train_loader := source_after tl1 tgens,
                 validation_loader := source_after vl1 vgens\<rparr>)))))))"

definition train_validate ::
    "ext \<Rightarrow> (string \<rightharpoonup> nat) \<Rightarrow> string list \<Rightarrow> world \<Rightarrow> error + world" where
  "train_validate x steps categories w =
     train_validate_with (epoch_passes x steps categories) w"

section \<open>The run\<close>

text \<open>The condition of the \<^verbatim>\<open>assert\<close> of line 248.\<close>

definition option_settings_ok :: "string \<Rightarrow> int \<Rightarrow> bool" where
  "option_settings_ok opt n =
     (opt = ''random_captions'' \<and> n \<ge> 1 \<or> opt = ''regular_captions'' \<and> n = 1)"

definition results_path :: "string \<Rightarrow> string" where
  "results_path mt = ''results/finetune/'' @ mt @ ''/clip/classification_results.txt''"

text \<open>\<^verbatim>\<open>save_results\<close>, lines 125 to 143.\<close>

definition save_results :: "trainer \<Rightarrow> metrics \<Rightarrow> files \<Rightarrow> files" where
  "save_results s m fs = fs(results_path (medical_type s) \<mapsto> Report m)"

text \<open>\<^verbatim>\<open>run\<close>, lines 238 to 252. It returns the object, the storage and the data
  sources as the run leaves them.\<close>

definition run ::
    "ext \<Rightarrow> trainer \<Rightarrow> files \<Rightarrow> loader list \<Rightarrow> (string \<rightharpoonup> nat) \<Rightarrow> string \<Rightarrow> int \<Rightarrow> string list
      \<Rightarrow> error + trainer \<times> files \<times> loader list" where
  "run x s fs generators steps opt n categories =
     (let s1 = s\<lparr>option := Some opt, number_of_captions := Some n\<rparr> in
      if \<not> option_settings_ok opt n then Inl AssertionError
      else
     (case py_index generators 0 of Inl e \<Rightarrow> Inl e | Inr g0 \<Rightarrow>
     (case py_index generators 1 of Inl e \<Rightarrow> Inl e | Inr g1 \<Rightarrow>
     (case train_validate x steps categories
             \<lparr>self = s1, files = fs, train_loader = g0, validation_loader = g1\<rparr> of
        Inl e \<Rightarrow> Inl e
      | Inr w \<Rightarrow>
     (let generators1 = generators[0 := train_loader w, 1 := validation_loader w] in
      case py_index generators1 2 of Inl e \<Rightarrow> Inl e | Inr g2 \<Rightarrow>
     (case steps ''Test'' of None \<Rightarrow> Inl KeyError | Some n_test \<Rightarrow>
     (case evaluate x (self w) [g2] [(''Test'', n_test)] categories of
        Inl e \<Rightarrow> Inl e
      | Inr (m, gens) \<Rightarrow>
          Inr (self w, save_results (self w) m (files w),
               generators1[2 := source_after g2 gens]))))))))"

section \<open>Statements about a run\<close>

text \<open>
  The epochs of the list, run in turn from \<open>w\<close>, each complete with a validation loss
  that is not strictly lower than the best one known when it is compared.
\<close>

fun non_improving :: "passes \<Rightarrow> nat list \<Rightarrow> world \<Rightarrow> bool" where
  "non_improving passes [] w = True"
| "non_improving passes (epoch # rest) w =
     (case passes epoch w of
        Inl e \<Rightarrow> False
      | Inr (ms, w1) \<Rightarrow>
          \<not> float_lt (avg_validation_loss ms) (best_val_loss (self w1)) \<and>
          (case epoch_body passes epoch w of
             Inl e \<Rightarrow> False
           | Inr (w', brk) \<Rightarrow> non_improving passes rest w'))"

text \<open>The loss of lines 168 and 196 in the words of the specification: the arithmetic
  mean of the two cross-entropies.\<close>

definition mean_of_two :: "pyfloat \<Rightarrow> pyfloat \<Rightarrow> pyfloat" where
  "mean_of_two a b = np_mean [a, b]"

section \<open>Example inputs\<close>

text \<open>Concrete stand-ins for the libraries, small enough to compute with.\<close>

definition example_ext :: ext where
  "example_ext =
     \<lparr>tokenizer = (\<lambda>cs. \<lparr>input_ids = map (\<lambda>c. [length c]) cs,
                          attention_mask = map (\<lambda>c. [1]) cs\<rparr>),
      forward = (\<lambda>m ids px mask.
         Inr \<lparr>logits = replicate (length px) (replicate (length ids) (Fin 0)),
              logits_per_text = replicate (length ids) (replicate (length px) (Fin 0))\<rparr>),
      cross_entropy = (\<lambda>l gt. Inr (Fin (real (length gt)))),
      zero_grad = map (\<lambda>p. p\<lparr>grad := None\<rparr>),
      backward = (\<lambda>m px toks. map (\<lambda>p. p\<lparr>grad := Some (data p)\<rparr>) m),
      adam_step = (\<lambda>st m. (st, m)),
      convert_weights = map (\<lambda>p. p\<lparr>data := to_half (data p)\<rparr>),
      prompt_classifier = (\<lambda>m px pr. Inr (map (\<lambda>i. [Fin (3/4)]) px)),
      accuracy_score = (\<lambda>yt yp. Inr (Fin 1)),
      precision_score = (\<lambda>yt yp. Inr (Fin 1)),
      recall_score = (\<lambda>yt yp. Inr (Fin 1)),
      roc_auc_score = (\<lambda>yt ys.
         if length (remdups yt) \<le> 1 then Inl ValueError else Inr (Fin (1/2))),
      classification_report = (\<lambda>yt yp. Inr ''report''),
      confusion_matrix = (\<lambda>yt yp. Inr [[length yt]])\<rparr>"





definition example_model :: model where
  "example_model = [\<lparr>data = \<lparr>elems = [0], dtype = Float16\<rparr>, grad = None, requires_grad = True\<rparr>]"

definition example_trainer :: trainer where
  "example_trainer =
     (init example_ext True example_model [] ''ucsd'' 8)\<lparr>option := Some ''regular_captions''\<rparr>"

text \<open>A source of two batches, each of one image with label 1, and one whose second
  batch has label 0.\<close>

definition example_loader :: loader where
  "example_loader =
     \<lparr>feed = (\<lambda>i. if i < 2 then Some ([[0]], [1]) else None), cursor = 0, calls = []\<rparr>"

definition mixed_loader :: loader where
  "mixed_loader =
     \<lparr>feed = (\<lambda>i. if i = 0 then Some ([[0]], [1]) else if i = 1 then Some ([[0]], [0])
                    else None),
      cursor = 0, calls = []\<rparr>"

text \<open>A source with nothing left: its \<^verbatim>\<open>next()\<close> raises.\<close>

definition exhausted_loader :: loader where
  "exhausted_loader = \<lparr>feed = (\<lambda>i. None), cursor = 0, calls = []\<rparr>"

text \<open>A source that never ends: the labels alternate between 1 and 0.\<close>

definition cyclic_loader :: loader where
  "cyclic_loader =
     \<lparr>feed = (\<lambda>i. Some ([[0]], [if even i then 1 else 0])), cursor = 0, calls = []\<rparr>"

definition example_steps :: "string \<rightharpoonup> nat" where
  "example_steps = [''Train'' \<mapsto> 2, ''Validation'' \<mapsto> 2, ''Test'' \<mapsto> 2]"

definition example_measures :: "pyfloat \<Rightarrow> measures" where
  "example_measures v =
     \<lparr>avg_train_loss = Fin 1, avg_validation_loss = v,
      train_acc = Fin 1, train_prec = Fin 1, train_rec = Fin 1, train_auc = Fin 1,
      val_acc = Fin 1, val_prec = Fin 1, val_rec = Fin 1, val_auc = Fin 1\<rparr>"

text \<open>
  Passes that complete: epoch \<open>e\<close> leaves the parameter at \<open>e + 1\<close>; the validation loss
  is one half in epoch 0 and one afterwards.
\<close>

definition example_passes :: passes where
  "example_passes epoch w =
     Inr (example_measures (if epoch = 0 then Fin (1/2) else Fin 1),
          w\<lparr>self := (self w)\<lparr>medclip_model :=
               [\<lparr>data = \<lparr>elems = [real epoch + 1], dtype = Float16\<rparr>, grad = None, requires_grad = True\<rparr>]\<rparr>\<rparr>)"

definition stale_checkpoint :: "tensor list" where
  "stale_checkpoint = [\<lparr>elems = [7], dtype = Float16\<rparr>]"

definition example_world :: "files \<Rightarrow> world" where
  "example_world fs =
     \<lparr>self = example_trainer, files = fs,
      train_loader = example_loader, validation_loader = example_loader\<rparr>"

section \<open>The loss\<close>

lemma float_add_zero: "float_add (Fin 0) a = a"
  by (cases a) simp_all

lemma float_add_commute: "float_add a b = float_add b a"
  by (cases a; cases b) simp_all

lemma mean_of_two_eq: "mean_of_two a b = float_div_pos (float_add a b) 2"
  by (simp add: mean_of_two_def np_mean_def float_add_zero numeral_2_eq_2)

text \<open>
  C2. When the two cross-entropies against \<open>[0, ..., B-1]\<close> are defined, the loss of a
  batch of \<open>B\<close> inputs is their arithmetic mean, and exchanging the image logits with the
  text logits (in particular a matrix with its transpose) gives the same loss.
\<close>

theorem total_loss_mean:
  assumes "cross_entropy x l_img [0..<length inputs] = Inr a"
    and "cross_entropy x l_txt [0..<length inputs] = Inr b"
  shows "total_loss x inputs l_img l_txt = Inr (mean_of_two a b)
    \<and> total_loss x inputs l_txt l_img = total_loss x inputs l_img l_txt"
proof -
  have 1: "total_loss x inputs l_img l_txt = Inr (float_div_pos (float_add a b) 2)"
    using assms by (simp add: total_loss_def)
  have 2: "total_loss x inputs l_txt l_img = Inr (float_div_pos (float_add b a) 2)"
    using assms by (simp add: total_loss_def)
  show ?thesis
    using 1 2 mean_of_two_eq[of a b] float_add_commute[of a b] by simp
qed

theorem total_loss_mean_witness:
  "total_loss example_ext [[0], [1]] [[Fin 0, Fin 1], [Fin 2, Fin 3]]
       [[Fin 0, Fin 2], [Fin 1, Fin 3]] = Inr (mean_of_two (Fin 2) (Fin 2))
   \<and> total_loss example_ext [[0], [1]] [[Fin 0, Fin 2], [Fin 1, Fin 3]]
       [[Fin 0, Fin 1], [Fin 2, Fin 3]]
     = total_loss example_ext [[0], [1]] [[Fin 0, Fin 1], [Fin 2, Fin 3]]
       [[Fin 0, Fin 2], [Fin 1, Fin 3]]"
  using total_loss_mean[of example_ext "[[Fin 0, Fin 1], [Fin 2, Fin 3]]" "[[0], [1]]" "Fin 2"
      "[[Fin 0, Fin 2], [Fin 1, Fin 3]]" "Fin 2"]
  by (simp add: example_ext_def)

section \<open>The prompts\<close>


lemma build_texts_other_option:
  "option s = Some opt \<Longrightarrow> opt \<noteq> ''regular_captions'' \<Longrightarrow>
   build_texts s categories labels = Inl UnboundLocalError"
  by (simp add: build_texts_def)

lemma label_captions_in_range:
  "\<forall>l \<in> set labels. 0 \<le> l \<and> l < int (length categories) \<Longrightarrow>
   label_captions categories labels = Inr (map (\<lambda>l. caption (categories ! nat l)) labels)"
  by (induction labels) (simp_all add: py_index_def)

text \<open>Under the fixed policy there is one caption per label, of the form the
  specification gives.\<close>

lemma build_texts_regular:
  "option s = Some ''regular_captions'' \<Longrightarrow>
   \<forall>l \<in> set labels. 0 \<le> l \<and> l < int (length categories) \<Longrightarrow>
   build_texts s categories labels =
     Inr [(''COVID'', map (\<lambda>l. ''a photo of '' @ categories ! nat l @ '' lungs.'') labels)]"
  by (simp add: build_texts_def label_captions_in_range caption_def)

text \<open>
  C6. The randomized policy is accepted by the check of \<^verbatim>\<open>run\<close> and then has no
  captions: on a batch of the example source, with the option \<^verbatim>\<open>"random_captions"\<close> and
  three captions, the training step and the validation step both end in
  \<^verbatim>\<open>UnboundLocalError\<close>, where the fixed policy builds its caption.
\<close>

theorem random_captions_unbound:
  "option_settings_ok ''random_captions'' 3
   \<and> train_batch example_ext [''normal'', ''covid'']
        (example_trainer\<lparr>option := Some ''random_captions'', number_of_captions := Some 3\<rparr>)
        example_loader = Inl UnboundLocalError
   \<and> validation_batch example_ext [''normal'', ''covid'']
        (example_trainer\<lparr>option := Some ''random_captions'', number_of_captions := Some 3\<rparr>)
        example_loader = Inl UnboundLocalError
   \<and> build_texts example_trainer [''normal'', ''covid''] [1] =
        Inr [(''COVID'', [''a photo of covid lungs.''])]"
  by (simp add: option_settings_ok_def train_batch_def forward_backward_def
      validation_batch_def build_texts_def py_next_def example_loader_def example_trainer_def
      init_def py_index_def caption_def)

section \<open>The check of the option settings\<close>







section \<open>Classification\<close>

lemma zero_shot_model:
  "medclip_model s1 = medclip_model s2 \<Longrightarrow>
   zero_shot_classification x s1 img c1 = zero_shot_classification x s2 img c2"
  by (simp add: zero_shot_classification_def)

lemma eval_steps_model:
  "medclip_model s1 = medclip_model s2 \<Longrightarrow>
   eval_steps x s1 t1 n g acc = eval_steps x s2 t2 n g acc"
proof (induction x s1 t1 n g acc rule: eval_steps.induct)
  case (1 x self task g acc)
  then show ?case by simp
next
  case (2 x self task n g y_true y_pred y_score)
  show ?case
    using 2 zero_shot_model[OF 2(2), of x _ task t2]
    by (auto split: sum.splits prod.splits)
qed

lemma eval_sweeps_model:
  "medclip_model s1 = medclip_model s2 \<Longrightarrow>
   eval_sweeps x s1 t1 i steps gens acc = eval_sweeps x s2 t2 i steps gens acc"
proof (induction steps arbitrary: i gens acc)
  case Nil
  then show ?case by simp
next
  case (Cons a steps)
  obtain dt st where a: "a = (dt, st)" by (cases a)
  show ?case
    using Cons eval_steps_model[OF Cons(2), of x t1 st _ acc t2]
    by (auto simp: a split: sum.splits prod.splits)
qed

text \<open>
  C10. Classification does not read its task or categories argument: the scores and
  labels of \<^verbatim>\<open>zero_shot_classification\<close>, and all that \<^verbatim>\<open>evaluate\<close> returns, are the
  same for any two values of it, and the same for two objects that hold the same model
  parameters.
\<close>

theorem classification_ignores_task:
  "zero_shot_classification x s img c1 = zero_shot_classification x s img c2
   \<and> evaluate x s gens steps t1 = evaluate x s gens steps t2
   \<and> (medclip_model s = medclip_model s' \<longrightarrow>
        zero_shot_classification x s img c1 = zero_shot_classification x s' img c2
        \<and> evaluate x s gens steps t1 = evaluate x s' gens steps t2)"
  using eval_sweeps_model[of s s x t1 0 steps gens _ t2]
    eval_sweeps_model[of s s' x t1 0 steps gens _ t2]
  by (auto simp: evaluate_def zero_shot_classification_def)

theorem classification_ignores_task_witness:
  "medclip_model example_trainer = medclip_model (example_trainer\<lparr>medical_type := ''ori''\<rparr>)
   \<and> zero_shot_classification example_ext example_trainer [[0]] [''normal'', ''covid'']
     = zero_shot_classification example_ext (example_trainer\<lparr>medical_type := ''ori''\<rparr>) [[0]]
         [''covid'', ''normal'']
   \<and> evaluate example_ext example_trainer [mixed_loader] [(''Test'', 2)] [''normal'', ''covid'']
     = evaluate example_ext (example_trainer\<lparr>medical_type := ''ori''\<rparr>) [mixed_loader]
         [(''Test'', 2)] [''covid'', ''normal'']"
proof -
  have same: "medclip_model example_trainer
      = medclip_model (example_trainer\<lparr>medical_type := ''ori''\<rparr>)"
    by simp
  from classification_ignores_task[of example_ext example_trainer "[[0]]"
      "[''normal'', ''covid'']" "[''covid'', ''normal'']" "[mixed_loader]" "[(''Test'', 2)]"
      "[''normal'', ''covid'']" "[''covid'', ''normal'']"
      "example_trainer\<lparr>medical_type := ''ori''\<rparr>"] same
  show ?thesis by blast
qed

section \<open>The precision cycle\<close>

lemma example_trainer_simps:
  "option example_trainer = Some ''regular_captions''"
  "device example_trainer = ''cuda''"
  "medclip_model example_trainer = [\<lparr>data = \<lparr>elems = [0], dtype = Float16\<rparr>, grad = None, requires_grad = True\<rparr>]"
  by (simp_all add: example_trainer_def init_def Let_def load_medclip_model_def example_ext_def
      example_model_def to_half_def)







section \<open>The undefined AUC\<close>


lemma example_sweep_two_classes:
  "eval_sweeps example_ext example_trainer [''normal'', ''covid''] 0 [(''Test'', 2)]
      [mixed_loader] ([], [], [])
    = Inr (([Fin 1, Fin 0], [Fin 1, Fin 1], [Fin (3/4), Fin (3/4)]),
           [mixed_loader\<lparr>cursor := 0, calls := [Next, Next, Reset]\<rparr>])"
  by (simp add: numeral_2_eq_2 py_next_def mixed_loader_def zero_shot_classification_def
      example_ext_def reset_def round_half_even_def)





section \<open>Calls on the data sources\<close>

lemma py_next_calls:
  "py_next g = Inr (b, g') \<Longrightarrow>
   calls g' = calls g @ [Next] \<and> cursor g' = Suc (cursor g) \<and> feed g' = feed g"
  by (auto simp: py_next_def split: option.splits)

lemma eval_steps_calls:
  "eval_steps x s task n g acc = Inr (acc', g') \<Longrightarrow> calls g' = calls g @ replicate n Next"
proof (induction x s task n g acc arbitrary: acc' g' rule: eval_steps.induct)
  case (1 x self task g acc)
  then show ?case by simp
next
  case (2 x self task n g y_true y_pred y_score)
  from "2.prems" obtain inputs labels g1 top_probs top_labels where
    nx: "py_next g = Inr ((inputs, labels), g1)"
    and zs: "zero_shot_classification x self inputs task = Inr (top_probs, top_labels)"
    and rest: "eval_steps x self task n g1
        (y_true @ map (\<lambda>l. Fin (of_int l)) labels, y_pred @ top_labels, y_score @ top_probs)
        = Inr (acc', g')"
    by (auto split: sum.splits prod.splits)
  have "calls g' = calls g1 @ replicate n Next"
    using "2.IH"[OF nx refl refl zs refl rest] .
  with py_next_calls[OF nx] show ?case
    by (simp add: replicate_append_same)
qed

lemma eval_sweeps_calls:
  "eval_sweeps x s task i steps gens acc = Inr (acc', gens') \<Longrightarrow>
   length gens' = length gens \<and> (steps \<noteq> [] \<longrightarrow> i + length steps \<le> length gens) \<and>
   (\<forall>j < length gens.
      calls (gens' ! j) =
        (if i \<le> j \<and> j < i + length steps
         then calls (gens ! j) @ replicate (snd (steps ! (j - i))) Next @ [Reset]
         else calls (gens ! j)))"
proof (induction steps arbitrary: i gens acc)
  case Nil
  then show ?case by simp
next
  case (Cons a steps)
  obtain dt st where a: "a = (dt, st)" by (cases a)
  from Cons.prems a obtain acc1 g1 where
    lt: "i < length gens"
    and es: "eval_steps x s task st (gens ! i) acc = Inr (acc1, g1)"
    and rest: "eval_sweeps x s task (Suc i) steps (gens[i := reset g1]) acc1 = Inr (acc', gens')"
    by (auto split: sum.splits prod.splits if_splits)
  have c1: "calls (reset g1) = calls (gens ! i) @ replicate st Next @ [Reset]"
    using eval_steps_calls[OF es] by (simp add: reset_def)
  from Cons.IH[OF rest] have
    len: "length gens' = length gens"
    and bound: "steps \<noteq> [] \<longrightarrow> Suc i + length steps \<le> length gens"
    and each: "\<forall>j < length gens.
      calls (gens' ! j) =
        (if Suc i \<le> j \<and> j < Suc i + length steps
         then calls ((gens[i := reset g1]) ! j) @ replicate (snd (steps ! (j - Suc i))) Next @ [Reset]
         else calls ((gens[i := reset g1]) ! j))"
    by simp_all
  have "\<forall>j < length gens.
      calls (gens' ! j) =
        (if i \<le> j \<and> j < i + length (a # steps)
         then calls (gens ! j) @ replicate (snd ((a # steps) ! (j - i))) Next @ [Reset]
         else calls (gens ! j))"
  proof (intro allI impI)
    fix j assume j: "j < length gens"
    show "calls (gens' ! j) =
        (if i \<le> j \<and> j < i + length (a # steps)
         then calls (gens ! j) @ replicate (snd ((a # steps) ! (j - i))) Next @ [Reset]
         else calls (gens ! j))"
    proof (cases "j = i")
      case True
      then show ?thesis using each j lt c1 a by simp
    next
      case False
      then show ?thesis using each j by (auto simp: nth_Cons')
    qed
  qed
  with len bound lt show ?case by (cases steps) auto
qed

lemma validation_batch_calls:
  "validation_batch x categories s g = Inr (l, g') \<Longrightarrow> calls g' = calls g @ [Next]"
  by (auto simp: validation_batch_def Let_def split: sum.splits prod.splits dest: py_next_calls)

lemma validation_steps_calls:
  "validation_steps x categories rng s g ls = Inr (ls', g') \<Longrightarrow>
   calls g' = calls g @ replicate (length rng) Next"
proof (induction rng arbitrary: g ls)
  case Nil
  then show ?case by simp
next
  case (Cons a rng)
  from Cons.prems obtain l g1 where
    vb: "validation_batch x categories s g = Inr (l, g1)"
    and rest: "validation_steps x categories rng s g1 (ls @ [l]) = Inr (ls', g')"
    by (auto split: sum.splits prod.splits)
  show ?case
    using Cons.IH[OF rest] validation_batch_calls[OF vb] by (simp add: replicate_append_same)
qed

lemma train_pass_raises: "train_pass x categories s g = Inl TypeError"
  by (simp add: train_pass_def py_range_def)

text \<open>
  A run of \<^verbatim>\<open>evaluate\<close> that completes has called \<^verbatim>\<open>next()\<close> on each data source
  exactly its step count times and then \<^verbatim>\<open>reset()\<close> on it. A validation pass that
  completes has called \<^verbatim>\<open>next()\<close> exactly \<^verbatim>\<open>steps["Validation"]\<close> times and has not
  called \<^verbatim>\<open>reset()\<close>.
\<close>

lemma sweep_calls:
  "(eval_sweeps x s task 0 steps generators acc = Inr (acc', generators') \<longrightarrow>
      length generators' = length generators \<and>
      (\<forall>j < length steps.
         calls (generators' ! j) =
           calls (generators ! j) @ replicate (snd (steps ! j)) Next @ [Reset]))
   \<and> (evaluate x s [g] [(data_type, n)] task = Inr (m, gens) \<longrightarrow>
        (\<exists>g'. gens = [g'] \<and> calls g' = calls g @ replicate n Next @ [Reset]))
   \<and> (validation_pass x steps' categories s g = Inr (l, g') \<longrightarrow>
        (\<exists>k. steps' ''Validation'' = Some k \<and> calls g' = calls g @ replicate k Next))"
proof (intro conjI impI)
  assume sw: "eval_sweeps x s task 0 steps generators acc = Inr (acc', generators')"
  from eval_sweeps_calls[OF sw]
  show "length generators' = length generators" by simp
  from eval_sweeps_calls[OF sw]
  show "\<forall>j < length steps.
         calls (generators' ! j) =
           calls (generators ! j) @ replicate (snd (steps ! j)) Next @ [Reset]"
    by (cases steps) auto
next
  assume ev: "evaluate x s [g] [(data_type, n)] task = Inr (m, gens)"
  then obtain acc' where
    sw: "eval_sweeps x s task 0 [(data_type, n)] [g] ([], [], []) = Inr (acc', gens)"
    by (auto simp: evaluate_def split: sum.splits prod.splits)
  from eval_sweeps_calls[OF sw] have len: "length gens = 1"
    and c: "calls (gens ! 0) = calls g @ replicate n Next @ [Reset]"
    by simp_all
  from len obtain g' where "gens = [g']"
    by (cases gens) auto
  with c show "\<exists>g'. gens = [g'] \<and> calls g' = calls g @ replicate n Next @ [Reset]"
    by simp
next
  assume vp: "validation_pass x steps' categories s g = Inr (l, g')"
  then obtain k ls where k: "steps' ''Validation'' = Some k"
    and vs: "validation_steps x categories [0..<k] s g [] = Inr (ls, g')"
    by (auto simp: validation_pass_def py_range_def split: option.splits sum.splits prod.splits)
  from validation_steps_calls[OF vs] k
  show "\<exists>k. steps' ''Validation'' = Some k \<and> calls g' = calls g @ replicate k Next"
    by simp
qed

lemma validation_pass_example: "validation_pass example_ext example_steps [''normal'', ''covid'']
       example_trainer cyclic_loader = Inr (Fin 1, cyclic_loader\<lparr>cursor := 2, calls := [Next, Next]\<rparr>)"
  by (simp add: validation_pass_def example_steps_def py_range_def upt_rec[of 0] upt_rec[of 1]
        validation_batch_def py_next_def cyclic_loader_def build_texts_def example_trainer_simps
        py_index_def process_class_prompts_def py_lookup_def total_loss_def example_ext_def
        np_mean_def numeral_2_eq_2)

lemma sweep_calls_example:
  "map_sum id (map calls \<circ> snd)
     (evaluate example_ext example_trainer [mixed_loader] [(''Test'', 2)] [''normal'', ''covid''])
     = Inr [[Next, Next, Reset]]
   \<and> map_sum id (map calls \<circ> snd)
     (eval_sweeps example_ext example_trainer [''normal'', ''covid''] 0 [(''Test'', 2)]
        [mixed_loader] ([], [], []))
     = Inr [[Next, Next, Reset]]
   \<and> map_sum id (calls \<circ> snd)
       (validation_pass example_ext example_steps [''normal'', ''covid'']
          example_trainer cyclic_loader) = Inr [Next, Next]"
proof -
  let ?g = "mixed_loader\<lparr>cursor := 0, calls := [Next, Next, Reset]\<rparr>"
  let ?acc = "([Fin 1, Fin 0], [Fin 1, Fin 1], [Fin (3/4), Fin (3/4)])"
  let ?m = "\<lparr>m_acc = Fin 1, m_prec = Fin 1, m_rec = Fin 1, m_auc = Fin (1/2),
             m_cr = ''report'', m_cm = [[2]]\<rparr>"
  have sw: "eval_sweeps example_ext example_trainer [''normal'', ''covid''] 0 [(''Test'', 2)]
      [mixed_loader] ([], [], []) = Inr (?acc, [?g])"
    by (simp add: numeral_2_eq_2 py_next_def mixed_loader_def zero_shot_classification_def
        example_ext_def reset_def round_half_even_def)
  have ev: "evaluate example_ext example_trainer [mixed_loader] [(''Test'', 2)]
      [''normal'', ''covid''] = Inr (?m, [?g])"
    unfolding evaluate_def sw by (simp add: example_ext_def)
  have c0: "calls mixed_loader = []" "calls cyclic_loader = []"
    by (simp_all add: mixed_loader_def cyclic_loader_def)
  from sweep_calls[where x = example_ext and s = example_trainer
      and task = "[''normal'', ''covid'']" and steps = "[(''Test'', 2)]"
      and generators = "[mixed_loader]" and acc = "([], [], [])" and acc' = ?acc
      and generators' = "[?g]" and g = mixed_loader and data_type = "''Test''" and n = 2
      and m = ?m and gens = "[?g]"] sw ev
  have 1: "map_sum id (map calls \<circ> snd)
     (evaluate example_ext example_trainer [mixed_loader] [(''Test'', 2)] [''normal'', ''covid''])
     = Inr [[Next, Next, Reset]]"
    and 2: "map_sum id (map calls \<circ> snd)
     (eval_sweeps example_ext example_trainer [''normal'', ''covid''] 0 [(''Test'', 2)]
        [mixed_loader] ([], [], []))
     = Inr [[Next, Next, Reset]]"
    by (simp_all add: c0 numeral_2_eq_2)
  from sweep_calls[where x = example_ext and s = example_trainer and steps' = example_steps
      and categories = "[''normal'', ''covid'']" and g = cyclic_loader and l = "Fin 1"
      and g' = "cyclic_loader\<lparr>cursor := 2, calls := [Next, Next]\<rparr>"]
    validation_pass_example
  have 3: "map_sum id (calls \<circ> snd)
       (validation_pass example_ext example_steps [''normal'', ''covid'']
          example_trainer cyclic_loader) = Inr [Next, Next]"
    by (simp add: c0)
  from 1 2 3 show ?thesis by simp
qed

lemma eval_steps_2:
  "eval_steps x s task 2 g acc = eval_steps x s task (Suc (Suc 0)) g acc"
  by (simp add: numeral_2_eq_2)

text \<open>
  A validation pass of two steps on a source that never ends leaves it with two calls of
  \<^verbatim>\<open>next()\<close> and none of \<^verbatim>\<open>reset()\<close>; the evaluation that follows on the same source
  starts from there, so that four calls of \<^verbatim>\<open>next()\<close> come before the first
  \<^verbatim>\<open>reset()\<close>.
\<close>

lemma validation_pass_no_reset:
  "map_sum id (calls \<circ> snd)
     (validation_pass example_ext example_steps [''normal'', ''covid'']
        example_trainer cyclic_loader) = Inr [Next, Next]
   \<and> map_sum id (map calls \<circ> snd)
       (evaluate example_ext example_trainer
          [cyclic_loader\<lparr>cursor := 2, calls := [Next, Next]\<rparr>]
          [(''Validation'', 2)] [''normal'', ''covid''])
     = Inr [[Next, Next, Next, Next, Reset]]"
proof -
  have 1: "map_sum id (calls \<circ> snd)
     (validation_pass example_ext example_steps [''normal'', ''covid'']
        example_trainer cyclic_loader) = Inr [Next, Next]"
    by (simp add: validation_pass_example)
  have 2: "map_sum id (map calls \<circ> snd)
       (evaluate example_ext example_trainer
          [cyclic_loader\<lparr>cursor := 2, calls := [Next, Next]\<rparr>]
          [(''Validation'', 2)] [''normal'', ''covid''])
     = Inr [[Next, Next, Next, Next, Reset]]"
    by (simp add: evaluate_def eval_steps_2 py_next_def cyclic_loader_def
      zero_shot_classification_def reset_def example_ext_def round_half_even_def)
  from 1 2 show ?thesis by (rule conjI)
qed

lemma epoch_passes_raises: "epoch_passes x steps categories epoch w = Inl TypeError"
  by (simp add: epoch_passes_def train_pass_raises)

text \<open>What the source does as it is written: with an epoch to run, the first training
  pass raises and so does \<^verbatim>\<open>train_validate\<close>.\<close>

lemma train_validate_raises:
  assumes "0 < epochs (self w)"
  shows "train_validate x steps categories w = Inl TypeError"
proof -
  from assms obtain k where "nat (epochs (self w)) = Suc k"
    by (cases "nat (epochs (self w))") auto
  then have "[0..<nat (epochs (self w))] = 0 # [1..<Suc k]"
    by (simp add: upt_rec)
  then show ?thesis
    by (simp add: train_validate_def train_validate_with_def epoch_body_def epoch_passes_raises)
qed

text \<open>A source that is not rewound after the validation pass has nothing left for the
  evaluation that follows.\<close>

lemma finite_source_after_validation_pass:
  "validation_pass example_ext example_steps [''normal'', ''covid''] example_trainer
     example_loader = Inr (Fin 1, example_loader\<lparr>cursor := 2, calls := [Next, Next]\<rparr>)
   \<and> evaluate example_ext example_trainer
       [example_loader\<lparr>cursor := 2, calls := [Next, Next]\<rparr>] [(''Validation'', 2)]
       [''normal'', ''covid''] = Inl StopIteration"
proof -
  have 1: "validation_pass example_ext example_steps [''normal'', ''covid''] example_trainer
     example_loader = Inr (Fin 1, example_loader\<lparr>cursor := 2, calls := [Next, Next]\<rparr>)"
    by (simp add: validation_pass_def example_steps_def py_range_def upt_rec[of 0] upt_rec[of 1]
        validation_batch_def py_next_def example_loader_def build_texts_def
        example_trainer_simps py_index_def process_class_prompts_def py_lookup_def
        total_loss_def example_ext_def np_mean_def numeral_2_eq_2)
  have 2: "evaluate example_ext example_trainer
       [example_loader\<lparr>cursor := 2, calls := [Next, Next]\<rparr>] [(''Validation'', 2)]
       [''normal'', ''covid''] = Inl StopIteration"
    by (simp add: evaluate_def eval_steps_2 py_next_def example_loader_def)
  from 1 2 show ?thesis by simp
qed

text \<open>
  C5. The training sweep of the first epoch raises at its loop header, before any call on
  the source: \<^verbatim>\<open>train_validate\<close> ends in \<^verbatim>\<open>TypeError\<close>, and so does the training pass
  even on a source whose \<^verbatim>\<open>next()\<close> would raise \<^verbatim>\<open>StopIteration\<close>. The sweep of
  \<^verbatim>\<open>evaluate\<close> over two steps calls \<^verbatim>\<open>next()\<close> twice and then \<^verbatim>\<open>reset()\<close>.
\<close>

theorem training_sweep_never_starts:
  "train_validate example_ext example_steps [''normal'', ''covid'']
     (example_world Map.empty) = Inl TypeError
   \<and> train_pass example_ext [''normal'', ''covid''] example_trainer example_loader
       = Inl TypeError
   \<and> train_pass example_ext [''normal'', ''covid''] example_trainer exhausted_loader
       = Inl TypeError
   \<and> py_next exhausted_loader = Inl StopIteration
   \<and> map_sum id (map calls \<circ> snd)
       (evaluate example_ext example_trainer [mixed_loader] [(''Test'', 2)]
          [''normal'', ''covid'']) = Inr [[Next, Next, Reset]]"
proof -
  have "0 < epochs (self (example_world Map.empty))"
    by (simp add: example_world_def example_trainer_def init_def Let_def)
  then have 1: "train_validate example_ext example_steps [''normal'', ''covid'']
     (example_world Map.empty) = Inl TypeError"
    by (rule train_validate_raises)
  have 2: "py_next exhausted_loader = Inl StopIteration"
    by (simp add: py_next_def exhausted_loader_def)
  have 3: "map_sum id (map calls \<circ> snd)
       (evaluate example_ext example_trainer [mixed_loader] [(''Test'', 2)]
          [''normal'', ''covid'']) = Inr [[Next, Next, Reset]]"
    unfolding evaluate_def example_sweep_two_classes by (simp add: example_ext_def)
  from 1 2 3 show ?thesis
    by (simp add: train_pass_raises)
qed

section \<open>The metric history\<close>

lemma history_appends_Cons:
  assumes "history_appends h ((k, v) # kvs) = Inr h'"
  obtains vs where "h k = Some vs" and "history_appends (h(k \<mapsto> vs @ [v])) kvs = Inr h'"
proof (cases "h k")
  case None
  with assms show ?thesis by (simp add: history_append_def)
next
  case (Some vs)
  with assms have "history_appends (h(k \<mapsto> vs @ [v])) kvs = Inr h'"
    by (simp add: history_append_def)
  with Some that show ?thesis by blast
qed

lemma history_appends_other:
  "history_appends h kvs = Inr h' \<Longrightarrow> k \<notin> fst ` set kvs \<Longrightarrow> h' k = h k"
proof (induction kvs arbitrary: h)
  case Nil
  then show ?case by simp
next
  case (Cons a kvs)
  obtain k0 v0 where a: "a = (k0, v0)" by (cases a)
  from Cons.prems(1)[unfolded a] obtain vs where
    rest: "history_appends (h(k0 \<mapsto> vs @ [v0])) kvs = Inr h'"
    by (rule history_appends_Cons)
  from Cons.prems(2) a have ne: "k \<noteq> k0" and nin: "k \<notin> fst ` set kvs"
    by auto
  from Cons.IH[OF rest nin] ne show ?case by simp
qed

lemma history_appends_key:
  "history_appends h kvs = Inr h' \<Longrightarrow> distinct (map fst kvs) \<Longrightarrow> (k, v) \<in> set kvs \<Longrightarrow>
   \<exists>vs. h k = Some vs \<and> h' k = Some (vs @ [v])"
proof (induction kvs arbitrary: h)
  case Nil
  then show ?case by simp
next
  case (Cons a kvs)
  obtain k0 v0 where a: "a = (k0, v0)" by (cases a)
  from Cons.prems(1)[unfolded a] obtain vs0 where
    hk0: "h k0 = Some vs0"
    and rest: "history_appends (h(k0 \<mapsto> vs0 @ [v0])) kvs = Inr h'"
    by (rule history_appends_Cons)
  from Cons.prems(2) a have d: "distinct (map fst kvs)" and nin: "k0 \<notin> fst ` set kvs"
    by simp_all
  show ?case
  proof (cases "(k, v) = a")
    case True
    with a have kv: "k = k0" "v = v0" by simp_all
    from history_appends_other[OF rest nin] have "h' k0 = Some (vs0 @ [v0])"
      by simp
    with hk0 kv show ?thesis by simp
  next
    case False
    with Cons.prems(3) have mem: "(k, v) \<in> set kvs" by simp
    then have "k \<in> fst ` set kvs" by force
    with nin have ne: "k \<noteq> k0" by blast
    from Cons.IH[OF rest d mem] ne show ?thesis by simp
  qed
qed


lemma record_metrics_effect:
  assumes "record_metrics ms s = Inr s'"
  shows "\<exists>h. s' = s\<lparr>metric_history := h\<rparr>"
    and "\<forall>k \<in> set metric_keys. \<exists>vs v. metric_history s k = Some vs
          \<and> metric_history s' k = Some (vs @ [v])"
proof -
  define kvs where "kvs = [(''train_loss'', avg_train_loss ms), (''val_loss'', avg_validation_loss ms),
              (''train_accuracy'', train_acc ms), (''val_accuracy'', val_acc ms),
              (''train_precision'', train_prec ms), (''val_precision'', val_prec ms),
              (''train_recall'', train_rec ms), (''val_recall'', val_rec ms),
              (''train_auc'', train_auc ms), (''val_auc'', val_auc ms)]"
  have rm: "record_metrics ms s =
      (case history_appends (metric_history s) kvs of
         Inl e \<Rightarrow> Inl e | Inr h \<Rightarrow> Inr (s\<lparr>metric_history := h\<rparr>))"
    unfolding record_metrics_def kvs_def ..
  from assms obtain h where h: "history_appends (metric_history s) kvs = Inr h"
    and s': "s' = s\<lparr>metric_history := h\<rparr>"
    unfolding rm by (cases "history_appends (metric_history s) kvs") auto
  show "\<exists>h. s' = s\<lparr>metric_history := h\<rparr>" using s' by blast
  have d: "distinct (map fst kvs)" by (simp add: kvs_def)
  have keys: "set metric_keys = fst ` set kvs"
    by (simp add: metric_keys_def kvs_def)
  show "\<forall>k \<in> set metric_keys. \<exists>vs v. metric_history s k = Some vs
          \<and> metric_history s' k = Some (vs @ [v])"
  proof
    fix k assume "k \<in> set metric_keys"
    with keys obtain v where "(k, v) \<in> set kvs" by auto
    from history_appends_key[OF h d this] s'
    show "\<exists>vs v. metric_history s k = Some vs \<and> metric_history s' k = Some (vs @ [v])"
      by auto
  qed
qed


lemma checkpoint_step_history:
  "checkpoint_step v w = (w', brk) \<Longrightarrow> metric_history (self w') = metric_history (self w)"
  by (auto simp: checkpoint_step_def Let_def split: if_splits)

lemma epoch_body_parts:
  assumes "epoch_body passes epoch w = Inr (w', brk)"
  obtains ms w1 s2 fs2 where "passes epoch w = Inr (ms, w1)"
    and "record_metrics ms (self w1) = Inr s2"
    and "save_plots s2 epoch plot_names (files w1) = Inr fs2"
    and "checkpoint_step (avg_validation_loss ms) (w1\<lparr>self := s2, files := fs2\<rparr>) = (w', brk)"
  using assms by (auto simp: epoch_body_def split: sum.splits prod.splits)

lemma epoch_body_history:
  assumes frame: "\<forall>ep v ms v'. passes ep v = Inr (ms, v') \<longrightarrow>
      metric_history (self v') = metric_history (self v)"
    and body: "epoch_body passes epoch w = Inr (w', brk)"
  shows "\<forall>k \<in> set metric_keys. \<exists>vs v. metric_history (self w) k = Some vs
          \<and> metric_history (self w') k = Some (vs @ [v])"
proof -
  from body obtain ms w1 s2 fs2 where p: "passes epoch w = Inr (ms, w1)"
    and rm: "record_metrics ms (self w1) = Inr s2"
    and cs: "checkpoint_step (avg_validation_loss ms) (w1\<lparr>self := s2, files := fs2\<rparr>) = (w', brk)"
    by (rule epoch_body_parts)
  have 1: "metric_history (self w1) = metric_history (self w)"
    using frame p by blast
  have 2: "metric_history (self w') = metric_history s2"
    using checkpoint_step_history[OF cs] by simp
  show ?thesis
    using record_metrics_effect(2)[OF rm] 1 2 by simp
qed

lemma epoch_loop_append:
  "epoch_loop passes (xs @ ys) w =
     (case epoch_loop passes xs w of
        Inl e \<Rightarrow> Inl e
      | Inr (w', brk) \<Rightarrow> if brk then Inr (w', True) else epoch_loop passes ys w')"
  by (induction xs arbitrary: w) (auto split: sum.splits prod.splits)

lemma epoch_loop_history:
  assumes frame: "\<forall>ep v ms v'. passes ep v = Inr (ms, v') \<longrightarrow>
      metric_history (self v') = metric_history (self v)"
  shows "epoch_loop passes es w = Inr (w', False) \<Longrightarrow> k \<in> set metric_keys \<Longrightarrow>
    metric_history (self w) k = Some vs \<Longrightarrow>
    \<exists>vs'. metric_history (self w') k = Some vs' \<and> length vs' = length vs + length es"
proof (induction es arbitrary: w vs)
  case Nil
  then show ?case by simp
next
  case (Cons e es)
  from Cons.prems(1) obtain w1 where
    b: "epoch_body passes e w = Inr (w1, False)"
    and rest: "epoch_loop passes es w1 = Inr (w', False)"
    by (auto split: sum.splits prod.splits if_splits)
  from epoch_body_history[OF frame b] Cons.prems(2)
  obtain vs0 v where "metric_history (self w) k = Some vs0"
    and "metric_history (self w1) k = Some (vs0 @ [v])"
    by blast
  with Cons.prems(3) have h1: "metric_history (self w1) k = Some (vs @ [v])"
    by simp
  from Cons.IH[OF rest Cons.prems(2) h1] show ?case by auto
qed

lemma map_of_constant:
  "k \<in> set ks \<Longrightarrow> map_of (map (\<lambda>k. (k, v)) ks) k = Some v"
  by (induction ks) auto

lemma init_history:
  "k \<in> set metric_keys \<Longrightarrow> metric_history (init x cuda pretrained opt0 mt n) k = Some []"
  by (simp add: init_def Let_def map_of_constant)

lemma history_appends_ok:
  "\<forall>k \<in> fst ` set kvs. h k \<noteq> None \<Longrightarrow> \<exists>h'. history_appends h kvs = Inr h'"
proof (induction kvs arbitrary: h)
  case Nil
  then show ?case by simp
next
  case (Cons a kvs)
  obtain k v where a: "a = (k, v)" by (cases a)
  from Cons.prems a obtain vs where hk: "h k = Some vs" by auto
  have "\<forall>k' \<in> fst ` set kvs. (h(k \<mapsto> vs @ [v])) k' \<noteq> None"
    using Cons.prems by auto
  from Cons.IH[OF this] obtain h' where "history_appends (h(k \<mapsto> vs @ [v])) kvs = Inr h'"
    by blast
  with hk a show ?case by (simp add: history_append_def)
qed

lemma record_metrics_ok:
  assumes "\<forall>k \<in> set metric_keys. metric_history s k \<noteq> None"
  shows "\<exists>s'. record_metrics ms s = Inr s'"
proof -
  define kvs where "kvs = [(''train_loss'', avg_train_loss ms), (''val_loss'', avg_validation_loss ms),
              (''train_accuracy'', train_acc ms), (''val_accuracy'', val_acc ms),
              (''train_precision'', train_prec ms), (''val_precision'', val_prec ms),
              (''train_recall'', train_rec ms), (''val_recall'', val_rec ms),
              (''train_auc'', train_auc ms), (''val_auc'', val_auc ms)]"
  have rm: "record_metrics ms s =
      (case history_appends (metric_history s) kvs of
         Inl e \<Rightarrow> Inl e | Inr h \<Rightarrow> Inr (s\<lparr>metric_history := h\<rparr>))"
    unfolding record_metrics_def kvs_def ..
  have keys: "set metric_keys = fst ` set kvs"
    by (simp add: metric_keys_def kvs_def)
  with assms have "\<forall>k \<in> fst ` set kvs. metric_history s k \<noteq> None" by simp
  from history_appends_ok[OF this] obtain h where "history_appends (metric_history s) kvs = Inr h"
    by blast
  then show ?thesis unfolding rm by simp
qed

lemma save_plots_ok:
  "\<forall>n \<in> set names.
      (\<exists>tr. metric_history s (''train_'' @ n) = Some tr \<and> length tr = epoch + 1)
      \<and> (\<exists>va. metric_history s (''val_'' @ n) = Some va \<and> length va = epoch + 1) \<Longrightarrow>
   \<exists>fs'. save_plots s epoch names fs = Inr fs'"
  by (induction names arbitrary: fs) auto

lemma plot_names_keys:
  "n \<in> set plot_names \<Longrightarrow>
   ''train_'' @ n \<in> set metric_keys \<and> ''val_'' @ n \<in> set metric_keys"
  by (auto simp: plot_names_def metric_keys_def)

text \<open>The bookkeeping of an epoch does not fail on an object whose history has, under each
  of the ten keys, one value per earlier epoch: the body of the loop completes whenever
  its passes do.\<close>

lemma epoch_body_ok:
  assumes p: "passes epoch w = Inr (ms, w1)"
    and keys: "\<forall>k \<in> set metric_keys.
      \<exists>vs. metric_history (self w1) k = Some vs \<and> length vs = epoch"
  shows "\<exists>w' brk. epoch_body passes epoch w = Inr (w', brk)"
proof -
  from keys have "\<forall>k \<in> set metric_keys. metric_history (self w1) k \<noteq> None"
    by fastforce
  from record_metrics_ok[OF this] obtain s2 where rm: "record_metrics ms (self w1) = Inr s2"
    by blast
  have after: "\<exists>vs. metric_history s2 k = Some vs \<and> length vs = epoch + 1"
    if k: "k \<in> set metric_keys" for k
  proof -
    from record_metrics_effect(2)[OF rm] k
    obtain vs v where "metric_history (self w1) k = Some vs"
      and "metric_history s2 k = Some (vs @ [v])"
      by blast
    moreover from keys k obtain vs0 where "metric_history (self w1) k = Some vs0"
      and "length vs0 = epoch"
      by blast
    ultimately show ?thesis by simp
  qed
  have "\<forall>n \<in> set plot_names.
      (\<exists>tr. metric_history s2 (''train_'' @ n) = Some tr \<and> length tr = epoch + 1)
      \<and> (\<exists>va. metric_history s2 (''val_'' @ n) = Some va \<and> length va = epoch + 1)"
    using plot_names_keys after by blast
  from save_plots_ok[OF this] obtain fs2 where
    sp: "save_plots s2 epoch plot_names (files w1) = Inr fs2"
    by blast
  show ?thesis
    using p rm sp by (simp add: epoch_body_def split: prod.splits)
qed

text \<open>
  C8. On an object whose history is as \<^verbatim>\<open>__init__\<close> leaves it, and with passes that
  leave the history alone: when the epochs before \<open>e\<close> have run without a break and the
  passes of epoch \<open>e\<close> complete, the epoch completes, and each of the ten keys then has
  the sequence it had before with one value appended, of length \<open>e + 1\<close>.
\<close>

theorem metric_history_lengths:
  assumes frame: "\<forall>ep v ms v'. passes ep v = Inr (ms, v') \<longrightarrow>
      metric_history (self v') = metric_history (self v)"
    and fresh: "metric_history (self w0) = metric_history (init x cuda pretrained opt0 mt n)"
    and before: "epoch_loop passes [0..<e] w0 = Inr (w, False)"
    and pass: "passes e w = Inr (ms, w1)"
  shows "\<exists>w' brk. epoch_body passes e w = Inr (w', brk)
    \<and> (\<forall>k \<in> set metric_keys. \<exists>vs v. metric_history (self w) k = Some vs
          \<and> metric_history (self w') k = Some (vs @ [v]) \<and> length (vs @ [v]) = e + 1)"
proof -
  have at_w: "\<exists>vs. metric_history (self w) k = Some vs \<and> length vs = e"
    if k: "k \<in> set metric_keys" for k
  proof -
    have h0: "metric_history (self w0) k = Some []"
      using fresh init_history[OF k] by simp
    from epoch_loop_history[OF frame before k h0] show ?thesis by simp
  qed
  have "metric_history (self w1) = metric_history (self w)"
    using frame pass by blast
  with at_w have "\<forall>k \<in> set metric_keys.
      \<exists>vs. metric_history (self w1) k = Some vs \<and> length vs = e"
    by simp
  from epoch_body_ok[where passes = passes, OF pass this] obtain w' brk where
    body: "epoch_body passes e w = Inr (w', brk)"
    by blast
  have "\<exists>vs v. metric_history (self w) k = Some vs
          \<and> metric_history (self w') k = Some (vs @ [v]) \<and> length (vs @ [v]) = e + 1"
    if k: "k \<in> set metric_keys" for k
  proof -
    from at_w[OF k] obtain vs where vs: "metric_history (self w) k = Some vs"
      and len: "length vs = e"
      by blast
    from epoch_body_history[OF frame body] k
    obtain vs0 v where "metric_history (self w) k = Some vs0"
      and "metric_history (self w') k = Some (vs0 @ [v])"
      by blast
    with vs len show ?thesis by simp
  qed
  with body show ?thesis by blast
qed

lemma example_passes_frame:
  "example_passes ep v = Inr (ms, v') \<Longrightarrow>
   metric_history (self v') = metric_history (self v)
   \<and> best_val_loss (self v') = best_val_loss (self v)
   \<and> early_stopping_counter (self v') = early_stopping_counter (self v)
   \<and> early_stopping_patience (self v') = early_stopping_patience (self v)
   \<and> early_stop (self v') = early_stop (self v)"
  by (auto simp: example_passes_def)

lemma inr_false_projection:
  "map_sum id snd r = Inr False \<Longrightarrow> r = Inr (fst (projr r), False)"
  by (cases r) auto

lemma example_first_epoch:
  "map_sum id snd (epoch_loop example_passes [0..<1] (example_world Map.empty)) = Inr False"
  by (simp add: epoch_body_def example_passes_def example_world_def example_measures_def
      record_metrics_def history_append_def example_trainer_def init_def Let_def
      metric_keys_def plot_names_def checkpoint_step_def)

theorem metric_history_lengths_witness:
  "list_all (\<lambda>k. map_option length
       (metric_history
          (self (fst (projr (epoch_body example_passes 1
             (fst (projr (epoch_loop example_passes [0..<1] (example_world Map.empty))))))))
          k) = Some 2)
     metric_keys"
proof -
  let ?init = "example_world Map.empty"
  let ?mid = "fst (projr (epoch_loop example_passes [0..<1] ?init))"
  have frame: "\<forall>ep v ms v'. example_passes ep v = Inr (ms, v') \<longrightarrow>
      metric_history (self v') = metric_history (self v)"
    using example_passes_frame by blast
  have fresh: "metric_history (self ?init)
      = metric_history (init example_ext True example_model [] ''ucsd'' 8)"
    by (simp add: example_world_def example_trainer_def)
  have before: "epoch_loop example_passes [0..<1] ?init = Inr (?mid, False)"
    using example_first_epoch by (rule inr_false_projection)
  obtain ms w1 where pass: "example_passes 1 ?mid = Inr (ms, w1)"
    by (simp add: example_passes_def)
  from metric_history_lengths[OF frame fresh before pass]
  obtain w' brk where body: "epoch_body example_passes 1 ?mid = Inr (w', brk)"
    and len: "\<forall>k \<in> set metric_keys. \<exists>vs v. metric_history (self ?mid) k = Some vs
          \<and> metric_history (self w') k = Some (vs @ [v]) \<and> length (vs @ [v]) = 1 + 1"
    by auto
  from body have "fst (projr (epoch_body example_passes 1 ?mid)) = w'"
    by simp
  with len show ?thesis
    by (fastforce simp: list_all_iff)
qed

section \<open>Early stopping\<close>

lemma checkpoint_step_not_lower:
  assumes "\<not> float_lt v (best_val_loss (self w))"
    and "checkpoint_step v w = (w', brk)"
  shows "early_stopping_counter (self w') = early_stopping_counter (self w) + 1"
    and "best_val_loss (self w') = best_val_loss (self w)"
    and "early_stopping_patience (self w') = early_stopping_patience (self w)"
    and "brk \<longleftrightarrow> early_stopping_counter (self w) + 1 = early_stopping_patience (self w)"
    and "early_stop (self w') \<longleftrightarrow> early_stop (self w) \<or> brk"
  using assms by (auto simp: checkpoint_step_def Let_def split: if_splits)

lemma checkpoint_step_lower:
  assumes "float_lt v (best_val_loss (self w))"
    and "checkpoint_step v w = (w', brk)"
  shows "early_stopping_counter (self w') = 0"
    and "best_val_loss (self w') = v"
    and "early_stopping_patience (self w') = early_stopping_patience (self w)"
    and "\<not> brk"
    and "early_stop (self w') \<longleftrightarrow> early_stop (self w)"
  using assms by (auto simp: checkpoint_step_def Let_def split: if_splits)

lemma epoch_body_state:
  assumes frame: "\<forall>ep v ms v'. passes ep v = Inr (ms, v') \<longrightarrow>
        best_val_loss (self v') = best_val_loss (self v)
      \<and> early_stopping_counter (self v') = early_stopping_counter (self v)
      \<and> early_stopping_patience (self v') = early_stopping_patience (self v)
      \<and> early_stop (self v') = early_stop (self v)"
    and p: "passes epoch w = Inr (ms, w1)"
    and body: "epoch_body passes epoch w = Inr (w', brk)"
  obtains u where "checkpoint_step (avg_validation_loss ms) u = (w', brk)"
    and "best_val_loss (self u) = best_val_loss (self w)"
    and "best_val_loss (self w1) = best_val_loss (self w)"
    and "early_stopping_counter (self u) = early_stopping_counter (self w)"
    and "early_stopping_patience (self u) = early_stopping_patience (self w)"
    and "early_stop (self u) = early_stop (self w)"
proof -
  from body obtain ms' w1' s2 fs2 where p': "passes epoch w = Inr (ms', w1')"
    and rm: "record_metrics ms' (self w1') = Inr s2"
    and cs: "checkpoint_step (avg_validation_loss ms') (w1'\<lparr>self := s2, files := fs2\<rparr>) = (w', brk)"
    by (rule epoch_body_parts)
  from p p' have eq: "ms' = ms" "w1' = w1" by simp_all
  from record_metrics_effect(1)[OF rm] obtain h where s2: "s2 = (self w1')\<lparr>metric_history := h\<rparr>"
    by blast
  from frame p have f: "best_val_loss (self w1) = best_val_loss (self w)"
      "early_stopping_counter (self w1) = early_stopping_counter (self w)"
      "early_stopping_patience (self w1) = early_stopping_patience (self w)"
      "early_stop (self w1) = early_stop (self w)"
    by blast+
  show ?thesis
    using that[of "w1'\<lparr>self := s2, files := fs2\<rparr>"] cs eq s2 f by simp
qed


lemma epoch_body_non_improving:
  assumes frame: "\<forall>ep v ms v'. passes ep v = Inr (ms, v') \<longrightarrow>
        best_val_loss (self v') = best_val_loss (self v)
      \<and> early_stopping_counter (self v') = early_stopping_counter (self v)
      \<and> early_stopping_patience (self v') = early_stopping_patience (self v)
      \<and> early_stop (self v') = early_stop (self v)"
    and p: "passes epoch w = Inr (ms, w1)"
    and ni: "\<not> float_lt (avg_validation_loss ms) (best_val_loss (self w1))"
    and body: "epoch_body passes epoch w = Inr (w', brk)"
  shows "early_stopping_counter (self w') = early_stopping_counter (self w) + 1"
    and "early_stopping_patience (self w') = early_stopping_patience (self w)"
    and "brk \<longleftrightarrow> early_stopping_counter (self w) + 1 = early_stopping_patience (self w)"
    and "early_stop (self w') \<longleftrightarrow> early_stop (self w) \<or> brk"
proof -
  from frame p body obtain u where cs: "checkpoint_step (avg_validation_loss ms) u = (w', brk)"
    and u: "best_val_loss (self u) = best_val_loss (self w)"
      "best_val_loss (self w1) = best_val_loss (self w)"
      "early_stopping_counter (self u) = early_stopping_counter (self w)"
      "early_stopping_patience (self u) = early_stopping_patience (self w)"
      "early_stop (self u) = early_stop (self w)"
    by (rule epoch_body_state)
  from ni u have ni': "\<not> float_lt (avg_validation_loss ms) (best_val_loss (self u))"
    by simp
  from checkpoint_step_not_lower[OF ni' cs] u
  show "early_stopping_counter (self w') = early_stopping_counter (self w) + 1"
    and "early_stopping_patience (self w') = early_stopping_patience (self w)"
    and "brk \<longleftrightarrow> early_stopping_counter (self w) + 1 = early_stopping_patience (self w)"
    and "early_stop (self w') \<longleftrightarrow> early_stop (self w) \<or> brk"
    by simp_all
qed

lemma epoch_body_improving:
  assumes frame: "\<forall>ep v ms v'. passes ep v = Inr (ms, v') \<longrightarrow>
        best_val_loss (self v') = best_val_loss (self v)
      \<and> early_stopping_counter (self v') = early_stopping_counter (self v)
      \<and> early_stopping_patience (self v') = early_stopping_patience (self v)
      \<and> early_stop (self v') = early_stop (self v)"
    and p: "passes epoch w = Inr (ms, w1)"
    and lower: "float_lt (avg_validation_loss ms) (best_val_loss (self w1))"
    and body: "epoch_body passes epoch w = Inr (w', brk)"
  shows "early_stopping_counter (self w') = 0"
    and "early_stopping_patience (self w') = early_stopping_patience (self w)"
    and "\<not> brk"
    and "early_stop (self w') \<longleftrightarrow> early_stop (self w)"
proof -
  from frame p body obtain u where cs: "checkpoint_step (avg_validation_loss ms) u = (w', brk)"
    and u: "best_val_loss (self u) = best_val_loss (self w)"
      "best_val_loss (self w1) = best_val_loss (self w)"
      "early_stopping_counter (self u) = early_stopping_counter (self w)"
      "early_stopping_patience (self u) = early_stopping_patience (self w)"
      "early_stop (self u) = early_stop (self w)"
    by (rule epoch_body_state)
  from lower u have lower': "float_lt (avg_validation_loss ms) (best_val_loss (self u))"
    by simp
  from checkpoint_step_lower[OF lower' cs] u
  show "early_stopping_counter (self w') = 0"
    and "early_stopping_patience (self w') = early_stopping_patience (self w)"
    and "\<not> brk"
    and "early_stop (self w') \<longleftrightarrow> early_stop (self w)"
    by simp_all
qed

lemma checkpoint_step_flag:
  "checkpoint_step v u = (w', False) \<Longrightarrow> early_stop (self w') = early_stop (self u)"
  by (auto simp: checkpoint_step_def Let_def split: if_splits)

lemma epoch_body_flag:
  assumes frame: "\<forall>ep v ms v'. passes ep v = Inr (ms, v') \<longrightarrow>
        best_val_loss (self v') = best_val_loss (self v)
      \<and> early_stopping_counter (self v') = early_stopping_counter (self v)
      \<and> early_stopping_patience (self v') = early_stopping_patience (self v)
      \<and> early_stop (self v') = early_stop (self v)"
    and body: "epoch_body passes epoch w = Inr (w', False)"
  shows "early_stop (self w') = early_stop (self w)"
proof -
  from body obtain ms w1 where p: "passes epoch w = Inr (ms, w1)"
    by (rule epoch_body_parts)
  from frame p body obtain u where cs: "checkpoint_step (avg_validation_loss ms) u = (w', False)"
    and u: "early_stop (self u) = early_stop (self w)"
    by (rule epoch_body_state)
  from checkpoint_step_flag[OF cs] u show ?thesis by simp
qed

lemma epoch_loop_flag:
  assumes frame: "\<forall>ep v ms v'. passes ep v = Inr (ms, v') \<longrightarrow>
        best_val_loss (self v') = best_val_loss (self v)
      \<and> early_stopping_counter (self v') = early_stopping_counter (self v)
      \<and> early_stopping_patience (self v') = early_stopping_patience (self v)
      \<and> early_stop (self v') = early_stop (self v)"
  shows "epoch_loop passes es w = Inr (w', False) \<Longrightarrow> early_stop (self w') = early_stop (self w)"
proof (induction es arbitrary: w)
  case Nil
  then show ?case by simp
next
  case (Cons e es)
  from Cons.prems obtain w1 where
    b: "epoch_body passes e w = Inr (w1, False)"
    and rest: "epoch_loop passes es w1 = Inr (w', False)"
    by (auto split: sum.splits prod.splits if_splits)
  from Cons.IH[OF rest] epoch_body_flag[OF frame b] show ?case by simp
qed

lemma non_improving_Cons:
  assumes "non_improving passes (epoch # rest) w"
  obtains ms w1 w' brk where "passes epoch w = Inr (ms, w1)"
    and "\<not> float_lt (avg_validation_loss ms) (best_val_loss (self w1))"
    and "epoch_body passes epoch w = Inr (w', brk)"
    and "non_improving passes rest w'"
  using assms by (auto split: sum.splits prod.splits)

text \<open>A run of non-improving epochs that brings the counter to the patience ends with the
  flag set, at its last epoch and not before, whatever epochs are still to come.\<close>

lemma non_improving_stops:
  assumes frame: "\<forall>ep v ms v'. passes ep v = Inr (ms, v') \<longrightarrow>
        best_val_loss (self v') = best_val_loss (self v)
      \<and> early_stopping_counter (self v') = early_stopping_counter (self v)
      \<and> early_stopping_patience (self v') = early_stopping_patience (self v)
      \<and> early_stop (self v') = early_stop (self v)"
  shows "non_improving passes es w \<Longrightarrow> es \<noteq> [] \<Longrightarrow>
    early_stopping_counter (self w) + int (length es) = early_stopping_patience (self w) \<Longrightarrow>
    \<exists>w' w''. epoch_loop passes (es @ rest) w = Inr (w', True)
      \<and> epoch_loop passes es w = Inr (w', True)
      \<and> early_stop (self w')
      \<and> epoch_loop passes (butlast es) w = Inr (w'', False)
      \<and> early_stop (self w'') = early_stop (self w)"
proof (induction es arbitrary: w)
  case Nil
  then show ?case by simp
next
  case (Cons e es)
  from Cons.prems(1) obtain ms w1 w1' brk where p: "passes e w = Inr (ms, w1)"
    and ni: "\<not> float_lt (avg_validation_loss ms) (best_val_loss (self w1))"
    and body: "epoch_body passes e w = Inr (w1', brk)"
    and nrest: "non_improving passes es w1'"
    by (rule non_improving_Cons)
  note st = epoch_body_non_improving[OF frame p ni body]
  show ?case
  proof (cases "es = []")
    case True
    with Cons.prems(3) st(3) have brk by simp
    with st(4) have "early_stop (self w1')" by simp
    with True body \<open>brk\<close> show ?thesis by simp
  next
    case False
    then have "0 < length es" by simp
    with Cons.prems(3) st(3) have nb: "\<not> brk" by auto
    with st(4) have flag: "early_stop (self w1') = early_stop (self w)" by simp
    from Cons.prems(3) st(1,2)
    have c: "early_stopping_counter (self w1') + int (length es) = early_stopping_patience (self w1')"
      by simp
    from Cons.IH[OF nrest False c] obtain w' w'' where
      "epoch_loop passes (es @ rest) w1' = Inr (w', True)"
      "epoch_loop passes es w1' = Inr (w', True)"
      "early_stop (self w')"
      "epoch_loop passes (butlast es) w1' = Inr (w'', False)"
      "early_stop (self w'') = early_stop (self w1')"
      by blast
    with body nb flag False show ?thesis by simp
  qed
qed

lemma epoch_loop_after:
  "epoch_loop passes xs w0 = Inr (w, False) \<Longrightarrow>
   epoch_loop passes (xs @ ys) w0 = epoch_loop passes ys w"
  by (simp add: epoch_loop_append)

text \<open>
  C4. With passes that leave the early-stopping state alone: let the epochs before \<open>i\<close>
  run without a break, let epoch \<open>i\<close> observe a validation loss strictly lower than the
  best one (the best epoch), and let each of the \<open>p\<close> following epochs, \<open>p\<close> being the
  patience, complete with a loss that is not strictly lower. Then the loop is left by
  the break of epoch \<open>i + p\<close> with the flag set, whatever the epoch budget at or beyond
  that epoch: the state returned is the one reached right after epoch \<open>i + p\<close>, so no
  later epoch has run; and up to epoch \<open>i + p - 1\<close> the loop has not been left and the
  flag is as it was at the start.
\<close>

theorem early_stopping:
  assumes frame: "\<forall>ep v ms v'. passes ep v = Inr (ms, v') \<longrightarrow>
        best_val_loss (self v') = best_val_loss (self v)
      \<and> early_stopping_counter (self v') = early_stopping_counter (self v)
      \<and> early_stopping_patience (self v') = early_stopping_patience (self v)
      \<and> early_stop (self v') = early_stop (self v)"
    and before: "epoch_loop passes [0..<i] w0 = Inr (w, False)"
    and best_pass: "passes i w = Inr (ms, w1)"
    and lower: "float_lt (avg_validation_loss ms) (best_val_loss (self w1))"
    and best_body: "epoch_body passes i w = Inr (wb, b)"
    and patience: "early_stopping_patience (self w) = int p" "0 < p"
    and ni: "non_improving passes [i + 1..<i + 1 + p] wb"
    and budget: "i + 1 + p \<le> n"
  shows "\<exists>ws wp. epoch_loop passes [0..<n] w0 = Inr (ws, True)
    \<and> epoch_loop passes [0..<i + 1 + p] w0 = Inr (ws, True)
    \<and> early_stop (self ws)
    \<and> epoch_loop passes [0..<i + p] w0 = Inr (wp, False)
    \<and> early_stop (self wp) = early_stop (self w0)"
proof -
  note im = epoch_body_improving[OF frame best_pass lower best_body]
  have len: "length [i + 1..<i + 1 + p] = p" by simp
  have ne: "[i + 1..<i + 1 + p] \<noteq> []" using patience(2) by simp
  have c: "early_stopping_counter (self wb) + int (length [i + 1..<i + 1 + p])
      = early_stopping_patience (self wb)"
    using im(1,2) patience(1) by simp
  from non_improving_stops[OF frame ni ne c, of "[i + 1 + p..<n]"]
  obtain ws wp where
    1: "epoch_loop passes ([i + 1..<i + 1 + p] @ [i + 1 + p..<n]) wb = Inr (ws, True)"
    and 2: "epoch_loop passes [i + 1..<i + 1 + p] wb = Inr (ws, True)"
    and 3: "early_stop (self ws)"
    and 4: "epoch_loop passes (butlast [i + 1..<i + 1 + p]) wb = Inr (wp, False)"
    and 5: "early_stop (self wp) = early_stop (self wb)"
    by blast
  have f0: "early_stop (self w) = early_stop (self w0)"
    using epoch_loop_flag[OF frame before] .
  have upto_i: "epoch_loop passes [0..<i + 1] w0 = Inr (wb, False)"
    using before best_body im(3) by (simp add: epoch_loop_append)
  have s2: "[0..<i + 1 + p] = [0..<i + 1] @ [i + 1..<i + 1 + p]"
    using upt_add_eq_append[of 0 "i + 1" p] by simp
  have "[0..<i + 1 + p + (n - (i + 1 + p))] = [0..<i + 1 + p] @ [i + 1 + p..<i + 1 + p + (n - (i + 1 + p))]"
    using upt_add_eq_append[of 0 "i + 1 + p" "n - (i + 1 + p)"] by simp
  with budget have "[0..<n] = [0..<i + 1 + p] @ [i + 1 + p..<n]"
    by simp
  with s2 have s1: "[0..<n] = [0..<i + 1] @ ([i + 1..<i + 1 + p] @ [i + 1 + p..<n])"
    by simp
  obtain q where q: "p = Suc q"
    using patience(2) by (cases p) simp_all
  have bl: "butlast [i + 1..<i + 1 + p] = [i + 1..<i + p]"
    using q by simp
  have s3: "[0..<i + p] = [0..<i + 1] @ [i + 1..<i + p]"
    using upt_add_eq_append[of 0 "i + 1" q] q by simp
  have a: "epoch_loop passes [0..<n] w0 = Inr (ws, True)"
    using 1 by (simp only: s1 epoch_loop_after[OF upto_i])
  have b': "epoch_loop passes [0..<i + 1 + p] w0 = Inr (ws, True)"
    using 2 by (simp only: s2 epoch_loop_after[OF upto_i])
  have d: "epoch_loop passes [0..<i + p] w0 = Inr (wp, False)"
    using 4 by (simp only: s3 bl epoch_loop_after[OF upto_i])
  from a b' 3 d 5 im(4) f0 show ?thesis by auto
qed


lemma inr_projection: "r = Inr x \<Longrightarrow> r = Inr (fst (projr r), snd (projr r))"
  by simp

lemma example_best_epoch:
  "epoch_body example_passes 0 (example_world Map.empty) =
     Inr (fst (projr (epoch_body example_passes 0 (example_world Map.empty))),
          snd (projr (epoch_body example_passes 0 (example_world Map.empty))))"
proof -
  have p: "example_passes 0 (example_world Map.empty) =
      Inr (example_measures (Fin (1/2)),
           (example_world Map.empty)\<lparr>self := (self (example_world Map.empty))\<lparr>medclip_model :=
               [\<lparr>data = \<lparr>elems = [real 0 + 1], dtype = Float16\<rparr>, grad = None, requires_grad = True\<rparr>]\<rparr>\<rparr>)"
    by (simp add: example_passes_def)
  have "\<forall>k \<in> set metric_keys. \<exists>vs. metric_history (self ((example_world Map.empty)\<lparr>self := (self (example_world Map.empty))\<lparr>medclip_model :=
               [\<lparr>data = \<lparr>elems = [real 0 + 1], dtype = Float16\<rparr>, grad = None,
                 requires_grad = True\<rparr>]\<rparr>\<rparr>)) k = Some vs \<and> length vs = 0"
    by (simp add: example_world_def example_trainer_def init_history)
  from epoch_body_ok[where passes = example_passes, OF p this]
  show ?thesis by (auto dest: inr_projection)
qed

lemma example_non_improving:
  "non_improving example_passes [0 + 1..<0 + 1 + 5]
     (fst (projr (epoch_body example_passes 0 (example_world Map.empty))))"
  by (simp add: upt_rec epoch_body_def example_passes_def example_world_def
      example_measures_def record_metrics_def history_append_def example_trainer_def init_def
      Let_def metric_keys_def plot_names_def checkpoint_step_def state_dict_def
      load_medclip_model_def example_ext_def example_model_def)


theorem early_stopping_witness:
  "map_sum id (\<lambda>(w, b). (b, early_stop (self w)))
     (epoch_loop example_passes [0..<8] (example_world Map.empty)) = Inr (True, True)
   \<and> map_sum id (\<lambda>(w, b). (b, early_stop (self w)))
     (epoch_loop example_passes [0..<6] (example_world Map.empty)) = Inr (True, True)
   \<and> map_sum id (\<lambda>(w, b). (b, early_stop (self w)))
     (epoch_loop example_passes [0..<5] (example_world Map.empty)) = Inr (False, False)"
proof -
  let ?init = "example_world Map.empty"
  let ?ms = "example_measures (Fin (1/2))"
  let ?trained = "?init\<lparr>self := (self ?init)\<lparr>medclip_model :=
               [\<lparr>data = \<lparr>elems = [real 0 + 1], dtype = Float16\<rparr>, grad = None, requires_grad = True\<rparr>]\<rparr>\<rparr>"
  let ?wb = "fst (projr (epoch_body example_passes 0 ?init))"
  let ?b = "snd (projr (epoch_body example_passes 0 ?init))"
  have frame: "\<forall>ep v ms v'. example_passes ep v = Inr (ms, v') \<longrightarrow>
        best_val_loss (self v') = best_val_loss (self v)
      \<and> early_stopping_counter (self v') = early_stopping_counter (self v)
      \<and> early_stopping_patience (self v') = early_stopping_patience (self v)
      \<and> early_stop (self v') = early_stop (self v)"
    using example_passes_frame by blast
  have before: "epoch_loop example_passes [0..<0] ?init = Inr (?init, False)"
    by simp
  have pass: "example_passes 0 ?init = Inr (?ms, ?trained)"
    by (simp add: example_passes_def)
  have lower: "float_lt (avg_validation_loss ?ms) (best_val_loss (self ?trained))"
    by (simp add: example_measures_def example_world_def example_trainer_def init_def Let_def)
  have pat: "early_stopping_patience (self ?init) = int 5" "0 < (5::nat)"
    by (simp_all add: example_world_def example_trainer_def init_def Let_def)
  have budget: "0 + 1 + 5 \<le> (8::nat)" by simp
  have flag0: "\<not> early_stop (self ?init)"
    by (simp add: example_world_def example_trainer_def init_def Let_def)
  from early_stopping[OF frame before pass lower example_best_epoch pat example_non_improving
      budget]
  obtain ws wp where
    "epoch_loop example_passes [0..<8] ?init = Inr (ws, True)"
    "epoch_loop example_passes [0..<0 + 1 + 5] ?init = Inr (ws, True)"
    "early_stop (self ws)"
    "epoch_loop example_passes [0..<0 + 5] ?init = Inr (wp, False)"
    "early_stop (self wp) = early_stop (self ?init)"
    by blast
  with flag0 show ?thesis by simp
qed

section \<open>The passes of the source\<close>

text \<open>The steps of the passes change the model and the optimizer only: the passes of the
  source are among those that leave the history and the early-stopping state alone.\<close>

lemma optimizer_update_keeps_bookkeeping:
  "metric_history (optimizer_update x s) = metric_history s
   \<and> best_val_loss (optimizer_update x s) = best_val_loss s
   \<and> early_stopping_counter (optimizer_update x s) = early_stopping_counter s
   \<and> early_stopping_patience (optimizer_update x s) = early_stopping_patience s
   \<and> early_stop (optimizer_update x s) = early_stop s
   \<and> medical_type (optimizer_update x s) = medical_type s"
  by (simp add: optimizer_update_def Let_def split: prod.splits)

lemma forward_backward_keeps_bookkeeping:
  "forward_backward x categories s g = Inr (loss, s1, g') \<Longrightarrow>
   metric_history s1 = metric_history s
   \<and> best_val_loss s1 = best_val_loss s
   \<and> early_stopping_counter s1 = early_stopping_counter s
   \<and> early_stopping_patience s1 = early_stopping_patience s
   \<and> early_stop s1 = early_stop s
   \<and> medical_type s1 = medical_type s"
  by (auto simp: forward_backward_def Let_def split: sum.splits prod.splits)

lemma train_batch_keeps_bookkeeping:
  assumes "train_batch x categories s g = Inr (loss, s', g')"
  shows "metric_history s' = metric_history s
   \<and> best_val_loss s' = best_val_loss s
   \<and> early_stopping_counter s' = early_stopping_counter s
   \<and> early_stopping_patience s' = early_stopping_patience s
   \<and> early_stop s' = early_stop s
   \<and> medical_type s' = medical_type s"
proof -
  from assms obtain s1 where fb: "forward_backward x categories s g = Inr (loss, s1, g')"
    and s': "s' = optimizer_update x s1"
    by (auto simp: train_batch_def split: sum.splits prod.splits)
  from forward_backward_keeps_bookkeeping[OF fb] optimizer_update_keeps_bookkeeping[of x s1] s'
  show ?thesis by simp
qed

lemma train_steps_keeps_bookkeeping:
  "train_steps x categories rng s g ls = Inr (ls', s', g') \<Longrightarrow>
   metric_history s' = metric_history s
   \<and> best_val_loss s' = best_val_loss s
   \<and> early_stopping_counter s' = early_stopping_counter s
   \<and> early_stopping_patience s' = early_stopping_patience s
   \<and> early_stop s' = early_stop s
   \<and> medical_type s' = medical_type s"
proof (induction rng arbitrary: s g ls)
  case Nil
  then show ?case by simp
next
  case (Cons a rng)
  from Cons.prems obtain l s1 g1 where
    tb: "train_batch x categories s g = Inr (l, s1, g1)"
    and rest: "train_steps x categories rng s1 g1 (ls @ [l]) = Inr (ls', s', g')"
    by (auto split: sum.splits prod.splits)
  from Cons.IH[OF rest] train_batch_keeps_bookkeeping[OF tb] show ?case by simp
qed


section \<open>The checkpoint\<close>

lemma save_plots_other:
  "save_plots s epoch names fs = Inr fs' \<Longrightarrow>
   \<forall>n \<in> set names. ''metrics_'' @ n @ ''_epoch.png'' \<noteq> path \<Longrightarrow> fs' path = fs path"
proof (induction names arbitrary: fs)
  case Nil
  then show ?case by simp
next
  case (Cons n names)
  from Cons.prems(1) obtain tr va where
    rest: "save_plots s epoch names (fs(''metrics_'' @ n @ ''_epoch.png'' \<mapsto> Plot tr va))
        = Inr fs'"
    by (auto split: option.splits if_splits)
  from Cons.IH[OF rest] Cons.prems(2) show ?case by auto
qed

lemma load_state_dict_elems:
  assumes "load_state_dict m0 sd = Inr m"
  shows "map (elems \<circ> data) m = map elems sd"
proof -
  from assms have len: "length sd = length m0"
    and m: "m = map (\<lambda>(p, t). p\<lparr>data := (data p)\<lparr>elems := elems t\<rparr>\<rparr>) (zip m0 sd)"
    by (auto simp: load_state_dict_def split: if_splits)
  have "map (elems \<circ> data) m = map (elems \<circ> snd) (zip m0 sd)"
    unfolding m by (simp add: comp_def case_prod_beta)
  also have "\<dots> = map elems (map snd (zip m0 sd))"
    by simp
  also have "map snd (zip m0 sd) = sd"
    using len by (simp add: map_snd_zip)
  finally show ?thesis .
qed

lemma checkpoint_step_save_path:
  "checkpoint_step v u = (w', brk) \<Longrightarrow>
   files w' (model_save_path mt) = files u (model_save_path mt)
   \<and> medical_type (self w') = medical_type (self u)"
  by (auto simp: checkpoint_step_def Let_def model_save_path_def split: if_splits)

lemma epoch_body_save_path:
  assumes frame: "\<forall>ep v ms v'. passes ep v = Inr (ms, v') \<longrightarrow>
      files v' = files v \<and> medical_type (self v') = medical_type (self v)"
    and body: "epoch_body passes epoch w = Inr (w', brk)"
  shows "files w' (model_save_path mt) = files w (model_save_path mt)
    \<and> medical_type (self w') = medical_type (self w)"
proof -
  from body obtain ms w1 s2 fs2 where p: "passes epoch w = Inr (ms, w1)"
    and rm: "record_metrics ms (self w1) = Inr s2"
    and sp: "save_plots s2 epoch plot_names (files w1) = Inr fs2"
    and cs: "checkpoint_step (avg_validation_loss ms) (w1\<lparr>self := s2, files := fs2\<rparr>) = (w', brk)"
    by (rule epoch_body_parts)
  from frame p have f: "files w1 = files w" "medical_type (self w1) = medical_type (self w)"
    by blast+
  from record_metrics_effect(1)[OF rm] have mt: "medical_type s2 = medical_type (self w1)"
    by auto
  have "\<forall>n \<in> set plot_names. ''metrics_'' @ n @ ''_epoch.png'' \<noteq> model_save_path mt"
    by (simp add: model_save_path_def)
  from save_plots_other[OF sp this] have "fs2 (model_save_path mt) = files w1 (model_save_path mt)" .
  with checkpoint_step_save_path[OF cs, of mt] f mt show ?thesis by simp
qed

lemma epoch_loop_save_path:
  assumes frame: "\<forall>ep v ms v'. passes ep v = Inr (ms, v') \<longrightarrow>
      files v' = files v \<and> medical_type (self v') = medical_type (self v)"
  shows "epoch_loop passes es w = Inr (w', brk) \<Longrightarrow>
    files w' (model_save_path mt) = files w (model_save_path mt)
    \<and> medical_type (self w') = medical_type (self w)"
proof (induction es arbitrary: w)
  case Nil
  then show ?case by simp
next
  case (Cons e es)
  from Cons.prems obtain w1 b1 where
    b: "epoch_body passes e w = Inr (w1, b1)"
    and rest: "(b1 \<and> w' = w1) \<or> epoch_loop passes es w1 = Inr (w', brk)"
    by (auto split: sum.splits prod.splits if_splits)
  from epoch_body_save_path[OF frame b, of mt] rest Cons.IH[of w1] show ?case by auto
qed

text \<open>Whatever the epochs were, a run that returns has loaded the file that was at
  \<open>model_save_path\<close> before it started.\<close>

lemma train_validate_loads_old_file:
  assumes frame: "\<forall>ep v ms v'. passes ep v = Inr (ms, v') \<longrightarrow>
      files v' = files v \<and> medical_type (self v') = medical_type (self v)"
    and run: "train_validate_with passes w = Inr w'"
  shows "\<exists>sd. files w (model_save_path (medical_type (self w))) = Some (StateDict sd)
    \<and> map (elems \<circ> data) (medclip_model (self w')) = map elems sd"
proof -
  from run obtain w1 brk where loop: "epoch_loop passes [0..<nat (epochs (self w))] w = Inr (w1, brk)"
    and lb: "load_best w1 = Inr w'"
    by (auto simp: train_validate_with_def split: sum.splits prod.splits)
  from epoch_loop_save_path[OF frame loop, of "medical_type (self w)"]
  have same: "files w1 (model_save_path (medical_type (self w1)))
      = files w (model_save_path (medical_type (self w)))"
    by simp
  from lb obtain sd m where tl: "torch_load (files w1) (model_save_path (medical_type (self w1))) = Inr sd"
    and ls: "load_state_dict (medclip_model (self w1)) sd = Inr m"
    and w': "w' = w1\<lparr>self := (self w1)\<lparr>medclip_model := m\<rparr>\<rparr>"
    by (auto simp: load_best_def split: sum.splits)
  from tl have "files w1 (model_save_path (medical_type (self w1))) = Some (StateDict sd)"
    by (auto simp: torch_load_def split: option.splits stored.splits)
  moreover from ls have "map (elems \<circ> data) m = map elems sd"
    by (rule load_state_dict_elems)
  ultimately show ?thesis using same w' by simp
qed

text \<open>
  With passes that complete, the state dictionary of the best epoch is saved to
  \<^verbatim>\<open>'best_model.pth'\<close> and the model is loaded from \<open>model_save_path\<close>, which nothing
  writes: after two such epochs the best parameters (1) are in \<^verbatim>\<open>'best_model.pth'\<close> and
  the model holds the parameters (7) of the file that was at \<open>model_save_path\<close>.
\<close>

lemma save_and_load_paths_differ:
  "map_sum id (\<lambda>w. (map (elems \<circ> data) (medclip_model (self w)),
                      files w ''best_model.pth'',
                      files w (model_save_path ''ucsd'')))
     (train_validate_with example_passes
        \<lparr>self = example_trainer\<lparr>epochs := 2\<rparr>,
         files = [model_save_path ''ucsd'' \<mapsto> StateDict stale_checkpoint],
         train_loader = example_loader, validation_loader = example_loader\<rparr>)
     = Inr ([[7]], Some (StateDict [\<lparr>elems = [1], dtype = Float16\<rparr>]),
            Some (StateDict [\<lparr>elems = [7], dtype = Float16\<rparr>]))
   \<and> train_validate_with example_passes
        \<lparr>self = example_trainer\<lparr>epochs := 2\<rparr>, files = Map.empty,
         train_loader = example_loader, validation_loader = example_loader\<rparr>
     = Inl FileNotFoundError"
proof -
  have 1: "map_sum id (\<lambda>w. (map (elems \<circ> data) (medclip_model (self w)),
                      files w ''best_model.pth'',
                      files w (model_save_path ''ucsd'')))
     (train_validate_with example_passes
        \<lparr>self = example_trainer\<lparr>epochs := 2\<rparr>,
         files = [model_save_path ''ucsd'' \<mapsto> StateDict stale_checkpoint],
         train_loader = example_loader, validation_loader = example_loader\<rparr>)
     = Inr ([[7]], Some (StateDict [\<lparr>elems = [1], dtype = Float16\<rparr>]),
            Some (StateDict [\<lparr>elems = [7], dtype = Float16\<rparr>]))"
    by (simp add: train_validate_with_def upt_rec epoch_body_def example_passes_def
      example_measures_def record_metrics_def history_append_def example_trainer_def init_def
      Let_def metric_keys_def plot_names_def checkpoint_step_def state_dict_def
      load_medclip_model_def example_ext_def example_model_def load_best_def torch_load_def
      model_save_path_def load_state_dict_def stale_checkpoint_def)
  have 2: "train_validate_with example_passes
        \<lparr>self = example_trainer\<lparr>epochs := 2\<rparr>, files = Map.empty,
         train_loader = example_loader, validation_loader = example_loader\<rparr>
     = Inl FileNotFoundError"
    by (simp add: train_validate_with_def upt_rec epoch_body_def example_passes_def
      example_measures_def record_metrics_def history_append_def example_trainer_def init_def
      Let_def metric_keys_def plot_names_def checkpoint_step_def state_dict_def
      load_medclip_model_def example_ext_def example_model_def load_best_def torch_load_def
      model_save_path_def load_state_dict_def)
  from 1 2 show ?thesis by (rule conjI)
qed

text \<open>A run of \<^verbatim>\<open>train_validate\<close> that returns has run no epoch and saved nothing: it
  returns the parameters of the file that was at \<open>model_save_path\<close> before it.\<close>

lemma train_validate_returns:
  assumes "train_validate x steps categories w = Inr w'"
  shows "epochs (self w) \<le> 0"
    and "files w' = files w"
    and "\<exists>sd. files w (model_save_path (medical_type (self w))) = Some (StateDict sd)
      \<and> map (elems \<circ> data) (medclip_model (self w')) = map elems sd"
proof -
  show le: "epochs (self w) \<le> 0"
  proof (rule ccontr)
    assume "\<not> epochs (self w) \<le> 0"
    then have "0 < epochs (self w)" by simp
    from train_validate_raises[OF this] assms show False by simp
  qed
  then have "nat (epochs (self w)) = 0" by simp
  with assms have lb: "load_best w = Inr w'"
    by (simp add: train_validate_def train_validate_with_def)
  then obtain sd m where tl: "torch_load (files w) (model_save_path (medical_type (self w))) = Inr sd"
    and ls: "load_state_dict (medclip_model (self w)) sd = Inr m"
    and w': "w' = w\<lparr>self := (self w)\<lparr>medclip_model := m\<rparr>\<rparr>"
    by (auto simp: load_best_def split: sum.splits)
  from w' show "files w' = files w" by simp
  from tl have "files w (model_save_path (medical_type (self w))) = Some (StateDict sd)"
    by (auto simp: torch_load_def split: option.splits stored.splits)
  moreover from ls have "map (elems \<circ> data) m = map elems sd"
    by (rule load_state_dict_elems)
  ultimately show "\<exists>sd. files w (model_save_path (medical_type (self w))) = Some (StateDict sd)
      \<and> map (elems \<circ> data) (medclip_model (self w')) = map elems sd"
    using w' by simp
qed


end
